theory Spec2Isabelle
  imports Complex_Main "HOL-Library.Word" "HOL-Library.Signed_Division"
begin

section \<open>The Win32 threading back-end of LibVLC (src/win32/thread.c)\<close>

text \<open>
  The file builds mutexes, condition variables, read/write locks, thread-local keys,
  cancellation and timers on top of Win32 objects. The embedding follows one calling
  thread. What belongs to the platform (events, TLS slots, clocks, waits) is either a
  component of the record \<open>world\<close> or an answer the platform gives, supplied as an
  argument. Pointers and handles are natural numbers, \<open>0\<close> being \<open>NULL\<close>.
\<close>

subsection \<open>Machine types and constants of the platform headers\<close>

type_synonym DWORD = "32 word"
type_synonym HANDLE = nat
type_synonym ptr = nat
type_synonym fnptr = nat

text \<open>
  \<open>mtime_t\<close> is \<open>int64_t\<close>, modelled by \<open>int\<close>. In \<open>vlc_cond_timedwait\<close>, whose deadline is
  the caller's, the two's-complement wrap-around of the 64-bit operations is written out
  with \<open>int64\<close>. The sleeps and the timers compute on \<open>int\<close> as it is: they agree with the C
  code as long as no signed operation overflows. Conversions to the unsigned 32-bit
  \<open>DWORD\<close> are written out with \<open>word_of_int\<close>, which reduces modulo \<open>2^32\<close> as the C
  conversion does.
\<close>

type_synonym mtime_t = int

definition int64 :: "int \<Rightarrow> int" where
  "int64 x = (x + 2 ^ 63) mod 2 ^ 64 - 2 ^ 63"

definition WAIT_OBJECT_0 :: DWORD where "WAIT_OBJECT_0 = 0"
definition WAIT_ABANDONED_0 :: DWORD where "WAIT_ABANDONED_0 = 0x80"
definition WAIT_IO_COMPLETION :: DWORD where "WAIT_IO_COMPLETION = 0xC0"
definition WAIT_TIMEOUT :: DWORD where "WAIT_TIMEOUT = 0x102"
definition WAIT_FAILED :: DWORD where "WAIT_FAILED = 0xFFFFFFFF"
definition INFINITE :: DWORD where "INFINITE = 0xFFFFFFFF"
definition TLS_OUT_OF_INDEXES :: DWORD where "TLS_OUT_OF_INDEXES = 0xFFFFFFFF"

text \<open>\<open>unsigned long\<close> has 32 bits on Win32 and Win64.\<close>

definition ULONG_MAX :: "32 word" where "ULONG_MAX = 0xFFFFFFFF"

definition CLOCK_FREQ :: int where "CLOCK_FREQ = 1000000"

text \<open>Error numbers of the C runtime (\<open>errno.h\<close>); each is non-zero.\<close>

definition EAGAIN :: int where "EAGAIN = 11"
definition ENOMEM :: int where "ENOMEM = 12"
definition EBUSY :: int where "EBUSY = 16"
definition ETIMEDOUT :: int where "ETIMEDOUT = 138"

definition CLOCK_REALTIME :: nat where "CLOCK_REALTIME = 0"
definition CLOCK_MONOTONIC :: nat where "CLOCK_MONOTONIC = 1"

subsection \<open>Data\<close>

text \<open>
  A cleanup handler (\<open>vlc_cleanup_t\<close>): the \<open>next\<close> pointer is the tail of the list that
  holds the record.
\<close>

record vlc_cleanup_t =
  proc :: fnptr
  cl_data :: ptr

text \<open>\<open>struct vlc_thread\<close>; \<open>cleaners\<close> is the linked list, most recently pushed first.\<close>

record vlc_thread =
  th_id :: HANDLE
  detached :: bool
  killable :: bool
  killed :: bool
  cleaners :: "vlc_cleanup_t list"
  entry :: fnptr
  data :: ptr

text \<open>
  \<open>struct vlc_threadvar\<close>. The doubly linked list is the list \<open>vlc_threadvar_last\<close> of the
  world: its head is the node \<open>vlc_threadvar_last\<close> points to, the tail follows \<open>prev\<close>.
\<close>

record vlc_threadvar =
  tv_id :: nat
  destroy :: fnptr

record vlc_cond_t =
  handle :: HANDLE
  clock :: nat

text \<open>What the thread calls back into: cleanup handlers and key destructors.\<close>

datatype callback =
    Cleaner fnptr ptr
  | Destructor vlc_threadvar ptr ptr
      \<comment> \<open>key, argument, and the value of the key's slot when the destructor starts\<close>

text \<open>The platform calls a run leaves behind, in order.\<close>

datatype oscall =
    WaitForMultipleObjectsEx HANDLE DWORD
  | SleepEx DWORD
  | SetEvent HANDLE
  | ResetEvent HANDLE
  | CloseHandle HANDLE
  | free_thread
  | endthreadex
  | mutex_unlock nat
  | mutex_lock nat
  | DeleteTimerQueueTimer HANDLE
  | CreateTimerQueueTimer DWORD DWORD

text \<open>
  The world of the calling thread.
  \<^item> \<open>self\<close>: the record \<open>vlc_threadvar_get (thread_key)\<close> points to, \<open>None\<close> for \<open>NULL\<close>
    (a thread not created by \<open>vlc_clone\<close>);
  \<^item> \<open>tls\<close>: the thread's value in each TLS slot; \<open>tls_live\<close>: the indexes handed out by
    \<open>TlsAlloc\<close> and not freed, the ones \<open>TlsSetValue\<close> stores to;
  \<^item> \<open>events\<close>: the open manual-reset events and their flag;
  \<^item> \<open>callbacks\<close>, \<open>oscalls\<close>: the calls made so far.
\<close>

record world =
  self :: "vlc_thread option"
  tls :: "nat \<Rightarrow> ptr"
  tls_live :: "nat \<Rightarrow> bool"
  vlc_threadvar_last :: "vlc_threadvar list"
  events :: "HANDLE \<rightharpoonup> bool"
  callbacks :: "callback list"
  oscalls :: "oscall list"

text \<open>
  Ways the process dies: \<open>abort ()\<close>, a failed \<open>assert\<close>, and reading through a
  \<open>NULL\<close> pointer.
\<close>

datatype fatal = Aborted | AssertionFailed | NullDeref

text \<open>
  How a call ends: it returns a value, the calling thread ends inside it
  (\<open>_endthreadex\<close>), or the process dies.
\<close>

datatype 'a outcome = Returned 'a world | ThreadExit world | Fatal fatal

subsection \<open>Condition variables: signalling\<close>

definition os_SetEvent :: "HANDLE \<Rightarrow> world \<Rightarrow> world" where
  "os_SetEvent h s =
     s\<lparr>events := (if h \<in> dom (events s) then (events s)(h \<mapsto> True) else events s),
       oscalls := oscalls s @ [SetEvent h]\<rparr>"

definition os_ResetEvent :: "HANDLE \<Rightarrow> world \<Rightarrow> world" where
  "os_ResetEvent h s =
     s\<lparr>events := (if h \<in> dom (events s) then (events s)(h \<mapsto> False) else events s),
       oscalls := oscalls s @ [ResetEvent h]\<rparr>"

text \<open>
  \<open>vlc_cond_init_common\<close>: \<open>h\<close> is what \<open>CreateEvent (NULL, TRUE, FALSE, NULL)\<close> returns, a
  fresh manual-reset event, not signalled, or \<open>NULL\<close>.
\<close>

definition vlc_cond_init_common :: "HANDLE \<Rightarrow> nat \<Rightarrow> world \<Rightarrow> vlc_cond_t outcome" where
  "vlc_cond_init_common h clk s =
     (if h = 0 then Fatal Aborted
      else Returned \<lparr>handle = h, clock = clk\<rparr> (s\<lparr>events := (events s)(h \<mapsto> False)\<rparr>))"

definition vlc_cond_init :: "HANDLE \<Rightarrow> world \<Rightarrow> vlc_cond_t outcome" where
  "vlc_cond_init h s = vlc_cond_init_common h CLOCK_MONOTONIC s"

definition vlc_cond_init_daytime :: "HANDLE \<Rightarrow> world \<Rightarrow> vlc_cond_t outcome" where
  "vlc_cond_init_daytime h s = vlc_cond_init_common h CLOCK_REALTIME s"

definition vlc_cond_broadcast :: "vlc_cond_t \<Rightarrow> world \<Rightarrow> world" where
  "vlc_cond_broadcast p_condvar s =
     (if handle p_condvar = 0 then s else os_SetEvent (handle p_condvar) s)"

definition vlc_cond_signal :: "vlc_cond_t \<Rightarrow> world \<Rightarrow> world" where
  "vlc_cond_signal p_condvar s =
     (if handle p_condvar = 0 then s else vlc_cond_broadcast p_condvar s)"

subsection \<open>Cancellation state\<close>

text \<open>\<open>vlc_savecancel\<close> returns the former \<open>killable\<close> as an \<open>int\<close>.\<close>

definition vlc_savecancel :: "world \<Rightarrow> int \<times> world" where
  "vlc_savecancel s =
     (case self s of
        None \<Rightarrow> (0, s)
      | Some th \<Rightarrow> ((if killable th then 1 else 0), s\<lparr>self := Some (th\<lparr>killable := False\<rparr>)\<rparr>))"

definition vlc_restorecancel :: "int \<Rightarrow> world \<Rightarrow> unit outcome" where
  "vlc_restorecancel state s =
     (if \<not> (state = 0 \<or> state = 1) then Fatal AssertionFailed
      else case self s of
        None \<Rightarrow> Returned () s
      | Some th \<Rightarrow>
          if killable th then Fatal AssertionFailed
          else Returned () (s\<lparr>self := Some (th\<lparr>killable := (state \<noteq> 0)\<rparr>)\<rparr>))"

subsection \<open>Thread-local keys\<close>

text \<open>
  \<open>TlsSetValue\<close> stores to a live index and reports success; on any other index it
  reports failure and stores nothing. \<open>TlsGetValue\<close> reads the slot.
\<close>

definition TlsSetValue :: "nat \<Rightarrow> ptr \<Rightarrow> world \<Rightarrow> bool \<times> world" where
  "TlsSetValue i v s =
     (if tls_live s i then (True, s\<lparr>tls := (tls s)(i := v)\<rparr>) else (False, s))"

definition TlsGetValue :: "nat \<Rightarrow> world \<Rightarrow> ptr" where
  "TlsGetValue i s = tls s i"

definition vlc_threadvar_set :: "vlc_threadvar \<Rightarrow> ptr \<Rightarrow> world \<Rightarrow> int \<times> world" where
  "vlc_threadvar_set key v s =
     (case TlsSetValue (tv_id key) v s of (ok, s') \<Rightarrow> ((if ok then ENOMEM else 0), s'))"

definition vlc_threadvar_get :: "vlc_threadvar \<Rightarrow> world \<Rightarrow> ptr" where
  "vlc_threadvar_get key s = TlsGetValue (tv_id key) s"

text \<open>
  \<open>vlc_threadvar_create\<close>: \<open>alloc_errno\<close> is \<open>Some e\<close> when \<open>malloc\<close> fails with \<open>errno = e\<close>;
  \<open>idx\<close> is what \<open>TlsAlloc\<close> returns, an index whose slot holds \<open>NULL\<close>. The new node
  becomes \<open>vlc_threadvar_last\<close>.
\<close>

definition vlc_threadvar_create ::
  "int option \<Rightarrow> DWORD \<Rightarrow> fnptr \<Rightarrow> world \<Rightarrow> int \<times> vlc_threadvar option \<times> world" where
  "vlc_threadvar_create alloc_errno idx destr s =
     (case alloc_errno of
        Some e \<Rightarrow> (e, None, s)
      | None \<Rightarrow>
          if idx = TLS_OUT_OF_INDEXES then (EAGAIN, None, s)
          else
            (let var = \<lparr>tv_id = unat idx, destroy = destr\<rparr>
             in (0, Some var,
                 s\<lparr>tls := (tls s)(unat idx := 0),
                   tls_live := (tls_live s)(unat idx := True),
                   vlc_threadvar_last := var # vlc_threadvar_last s\<rparr>)))"

text \<open>\<open>vlc_threadvar_delete\<close> unlinks the node and frees its index.\<close>

definition vlc_threadvar_delete :: "vlc_threadvar \<Rightarrow> world \<Rightarrow> world" where
  "vlc_threadvar_delete var s =
     s\<lparr>vlc_threadvar_last := remove1 var (vlc_threadvar_last s),
       tls_live := (tls_live s)(tv_id var := False)\<rparr>"

subsection \<open>Read/write locks\<close>

text \<open>
  \<open>vlc_rwlock_t\<close>: the guarding mutex is not modelled; each operation below is what a
  thread does between taking and releasing it. \<open>readers\<close> is an \<open>unsigned long\<close>,
  \<open>writer\<close> a \<open>DWORD\<close> thread identifier.
\<close>

record vlc_rwlock_t =
  wait :: vlc_cond_t
  readers :: "32 word"
  writer :: DWORD

text \<open>
  An operation completes with the new lock and world, or finds that it has to sleep in
  \<open>vlc_cond_wait\<close> (the lock is then as it was, and the thread tests its loop condition
  again when woken), or kills the process.
\<close>

datatype rw_result = RwDone vlc_rwlock_t world | RwWaits | RwFatal fatal

definition vlc_rwlock_init :: "HANDLE \<Rightarrow> world \<Rightarrow> rw_result" where
  "vlc_rwlock_init h s =
     (case vlc_cond_init h s of
        Returned cv s' \<Rightarrow> RwDone \<lparr>wait = cv, readers = 0, writer = 0\<rparr> s'
      | ThreadExit s' \<Rightarrow> RwFatal Aborted
      | Fatal f \<Rightarrow> RwFatal f)"

definition vlc_rwlock_rdlock :: "vlc_rwlock_t \<Rightarrow> world \<Rightarrow> rw_result" where
  "vlc_rwlock_rdlock lock s =
     (if writer lock \<noteq> 0 then
        (if readers lock = 0 then RwWaits else RwFatal AssertionFailed)
      else if readers lock = ULONG_MAX then RwFatal Aborted
      else RwDone (lock\<lparr>readers := readers lock + 1\<rparr>) s)"

definition vlc_rwlock_rdunlock :: "vlc_rwlock_t \<Rightarrow> world \<Rightarrow> rw_result" where
  "vlc_rwlock_rdunlock lock s =
     (if \<not> readers lock > 0 then RwFatal AssertionFailed
      else
        (let lock' = lock\<lparr>readers := readers lock - 1\<rparr>
         in RwDone lock' (if readers lock' = 0 then vlc_cond_signal (wait lock') s else s)))"

text \<open>\<open>tid\<close> is \<open>GetCurrentThreadId ()\<close>.\<close>

definition vlc_rwlock_wrlock :: "DWORD \<Rightarrow> vlc_rwlock_t \<Rightarrow> world \<Rightarrow> rw_result" where
  "vlc_rwlock_wrlock tid lock s =
     (if readers lock > 0 \<or> writer lock \<noteq> 0 then RwWaits
      else if writer lock \<noteq> 0 then RwFatal AssertionFailed
      else RwDone (lock\<lparr>writer := tid\<rparr>) s)"

definition vlc_rwlock_wrunlock :: "DWORD \<Rightarrow> vlc_rwlock_t \<Rightarrow> world \<Rightarrow> rw_result" where
  "vlc_rwlock_wrunlock tid lock s =
     (if writer lock \<noteq> tid then RwFatal AssertionFailed
      else if readers lock \<noteq> 0 then RwFatal AssertionFailed
      else
        (let lock' = lock\<lparr>writer := 0\<rparr>
         in RwDone lock' (vlc_cond_broadcast (wait lock') s)))"

definition vlc_rwlock_unlock :: "DWORD \<Rightarrow> vlc_rwlock_t \<Rightarrow> world \<Rightarrow> rw_result" where
  "vlc_rwlock_unlock tid lock s =
     (if writer lock \<noteq> 0 then vlc_rwlock_wrunlock tid lock s
      else vlc_rwlock_rdunlock lock s)"

text \<open>Sequences of operations by any threads, each carrying its thread identifier.\<close>

datatype rw_op = RdLock | RdUnlock | WrLock DWORD | WrUnlock DWORD | Unlock DWORD

fun rw_step :: "rw_op \<Rightarrow> vlc_rwlock_t \<Rightarrow> world \<Rightarrow> rw_result" where
  "rw_step RdLock lock s = vlc_rwlock_rdlock lock s"
| "rw_step RdUnlock lock s = vlc_rwlock_rdunlock lock s"
| "rw_step (WrLock tid) lock s = vlc_rwlock_wrlock tid lock s"
| "rw_step (WrUnlock tid) lock s = vlc_rwlock_wrunlock tid lock s"
| "rw_step (Unlock tid) lock s = vlc_rwlock_unlock tid lock s"

text \<open>
  A run: an operation that has to wait leaves the lock to the next one; a fatal one
  ends the run without a lock.
\<close>

fun rw_run :: "rw_op list \<Rightarrow> vlc_rwlock_t \<Rightarrow> world \<Rightarrow> (vlc_rwlock_t \<times> world) option" where
  "rw_run [] lock s = Some (lock, s)"
| "rw_run (opn # ops) lock s =
     (case rw_step opn lock s of
        RwDone lock' s' \<Rightarrow> rw_run ops lock' s'
      | RwWaits \<Rightarrow> rw_run ops lock s
      | RwFatal f \<Rightarrow> None)"

definition rw_inv :: "vlc_rwlock_t \<Rightarrow> bool" where
  "rw_inv lock =
     ((writer lock \<noteq> 0 \<longrightarrow> readers lock = 0) \<and> (readers lock > 0 \<longrightarrow> writer lock = 0))"

subsection \<open>Thread exit\<close>

text \<open>
  Cleanup handlers and key destructors are code of the caller. Their effect on the
  thread's own TLS values is the parameter \<open>u\<close>: \<open>u f arg\<close> maps the values before the
  call \<open>f (arg)\<close> to the values after it.
\<close>

type_synonym user = "fnptr \<Rightarrow> ptr \<Rightarrow> (nat \<Rightarrow> ptr) \<Rightarrow> (nat \<Rightarrow> ptr)"

definition call_user :: "user \<Rightarrow> fnptr \<Rightarrow> ptr \<Rightarrow> world \<Rightarrow> world" where
  "call_user u f arg s = s\<lparr>tls := u f arg (tls s)\<rparr>"

text \<open>
  The \<open>for\<close> loop of \<open>vlc_thread_cleanup\<close>: from \<open>vlc_threadvar_last\<close> along \<open>prev\<close>, the
  first key with a value and a destructor.
\<close>

fun scan_keys :: "vlc_threadvar list \<Rightarrow> world \<Rightarrow> (vlc_threadvar \<times> ptr) option" where
  "scan_keys [] s = None"
| "scan_keys (key # prev) s =
     (let v = vlc_threadvar_get key s
      in if v \<noteq> 0 \<and> destroy key \<noteq> 0 then Some (key, v) else scan_keys prev s)"

text \<open>
  The \<open>retry\<close> loop: clear the value, call the destructor, scan again from the head.
  A destructor may set values again, so the loop may run forever: the result is then
  \<open>None\<close>. The super mutex taken around each scan is not modelled.
\<close>

partial_function (option) drain_threadvars :: "user \<Rightarrow> world \<Rightarrow> world option" where
  "drain_threadvars u s =
     (case scan_keys (vlc_threadvar_last s) s of
        None \<Rightarrow> Some s
      | Some (key, v) \<Rightarrow>
          drain_threadvars u
            (call_user u (destroy key) v
               ((snd (vlc_threadvar_set key 0 s))
                  \<lparr>callbacks := callbacks s @
                     [Destructor key v (vlc_threadvar_get key (snd (vlc_threadvar_set key 0 s)))]\<rparr>)))"

declare drain_threadvars.simps [code]

definition vlc_thread_cleanup :: "user \<Rightarrow> vlc_thread \<Rightarrow> world \<Rightarrow> world option" where
  "vlc_thread_cleanup u th s =
     (case drain_threadvars u s of
        None \<Rightarrow> None
      | Some s' \<Rightarrow>
          Some (if detached th
                then s'\<lparr>self := None, oscalls := oscalls s' @ [CloseHandle (th_id th), free_thread]\<rparr>
                else s'))"

text \<open>
  \<open>vlc_entry\<close>, the function a thread made by \<open>vlc_clone\<close> runs, for an entry function that
  returns: \<open>run f arg\<close> gives the value that \<open>f (arg)\<close> returns and its effect on the thread's
  TLS values. \<open>th\<close> is the record made by \<open>vlc_clone_attr\<close>; stored under \<open>thread_key\<close> it is
  \<open>self\<close>. The result is the world the thread leaves.
\<close>

type_synonym thread_fn = "fnptr \<Rightarrow> ptr \<Rightarrow> (nat \<Rightarrow> ptr) \<Rightarrow> ptr \<times> (nat \<Rightarrow> ptr)"

definition vlc_entry :: "user \<Rightarrow> thread_fn \<Rightarrow> vlc_thread \<Rightarrow> world \<Rightarrow> world option" where
  "vlc_entry u run th s =
     (let th1 = th\<lparr>killable := True\<rparr>;
          s1 = s\<lparr>self := Some th1\<rparr>;
          (r, t) = run (entry th) (data th) (tls s1);
          th2 = th1\<lparr>data := r\<rparr>
      in vlc_thread_cleanup u th2 (s1\<lparr>self := Some th2, tls := t\<rparr>))"

subsection \<open>Cancellation\<close>

text \<open>The APC queued by \<open>vlc_cancel\<close>, run by the target thread in an alertable wait.\<close>

definition vlc_cancel_self :: "world \<Rightarrow> world" where
  "vlc_cancel_self s = s\<lparr>self := map_option (\<lambda>th. th\<lparr>killed := True\<rparr>) (self s)\<rparr>"

text \<open>The loop of \<open>vlc_testcancel\<close> over \<open>th->cleaners\<close>, along \<open>next\<close>.\<close>

fun run_cleaners :: "user \<Rightarrow> vlc_cleanup_t list \<Rightarrow> world \<Rightarrow> world" where
  "run_cleaners u [] s = s"
| "run_cleaners u (p # next) s =
     run_cleaners u next
       (call_user u (proc p) (cl_data p)
          (s\<lparr>callbacks := callbacks s @ [Cleaner (proc p) (cl_data p)]\<rparr>))"

definition vlc_testcancel :: "user \<Rightarrow> world \<Rightarrow> unit outcome option" where
  "vlc_testcancel u s =
     (case self s of
        None \<Rightarrow> Some (Returned () s)
      | Some th \<Rightarrow>
          if killable th \<and> killed th then
            (let s1 = run_cleaners u (cleaners th) s;
                 th' = th\<lparr>data := 0\<rparr>
             in case vlc_thread_cleanup u th' (s1\<lparr>self := Some th'\<rparr>) of
                  None \<Rightarrow> None
                | Some s2 \<Rightarrow> Some (ThreadExit (s2\<lparr>oscalls := oscalls s2 @ [endthreadex]\<rparr>)))
          else Some (Returned () s))"

datatype cancel_cmd = VLC_CLEANUP_PUSH vlc_cleanup_t | VLC_CLEANUP_POP

definition vlc_control_cancel :: "cancel_cmd \<Rightarrow> world \<Rightarrow> unit outcome" where
  "vlc_control_cancel cmd s =
     (case self s of
        None \<Rightarrow> Returned () s
      | Some th \<Rightarrow>
          (case cmd of
             VLC_CLEANUP_PUSH cleaner \<Rightarrow>
               Returned () (s\<lparr>self := Some (th\<lparr>cleaners := cleaner # cleaners th\<rparr>)\<rparr>)
           | VLC_CLEANUP_POP \<Rightarrow>
               (case cleaners th of
                  [] \<Rightarrow> Fatal NullDeref
                | p # next \<Rightarrow> Returned () (s\<lparr>self := Some (th\<lparr>cleaners := next\<rparr>)\<rparr>))))"

subsection \<open>Waiting\<close>

text \<open>
  What the platform answers. A wait on one handle reports the object signalled or
  abandoned, a user APC run (\<open>True\<close> when it was \<open>vlc_cancel_self\<close> for this thread), the
  time-out elapsed, or failure; \<open>SleepEx\<close> reports the time elapsed or an APC run. A
  script lists the answers to the thread's clock readings, waits and sleeps in order.
\<close>

datatype os_wait = Signalled | Abandoned | IoCompletion bool | Expired | Failed
datatype os_sleep = Elapsed | Interrupted bool
datatype os_event = Clock int | Wait os_wait | Sleep os_sleep

fun WaitForMultipleObjectsEx_ret :: "os_wait \<Rightarrow> DWORD" where
  "WaitForMultipleObjectsEx_ret Signalled = WAIT_OBJECT_0"
| "WaitForMultipleObjectsEx_ret Abandoned = WAIT_ABANDONED_0"
| "WaitForMultipleObjectsEx_ret (IoCompletion c) = WAIT_IO_COMPLETION"
| "WaitForMultipleObjectsEx_ret Expired = WAIT_TIMEOUT"
| "WaitForMultipleObjectsEx_ret Failed = WAIT_FAILED"

fun SleepEx_ret :: "os_sleep \<Rightarrow> DWORD" where
  "SleepEx_ret Elapsed = 0"
| "SleepEx_ret (Interrupted c) = WAIT_IO_COMPLETION"

definition run_apc :: "bool \<Rightarrow> world \<Rightarrow> world" where
  "run_apc c s = (if c then vlc_cancel_self s else s)"

text \<open>The checks of \<open>vlc_WaitForMultipleObjects\<close> on the value \<open>ret\<close>.\<close>

definition check_wait :: "DWORD \<Rightarrow> DWORD \<Rightarrow> world \<Rightarrow> DWORD outcome" where
  "check_wait count ret s =
     (if \<not> (ret < WAIT_ABANDONED_0 \<or> WAIT_ABANDONED_0 + count - 1 < ret)
      then Fatal AssertionFailed
      else if ret = WAIT_FAILED then Fatal Aborted
      else Returned ret s)"

text \<open>
  What a wait on a manual-reset event can answer, given the flag of the event when the
  wait starts: while the flag is set the wait is satisfied at once, so it does not time
  out; with the flag clear and a time-out of 0 the wait does not block, so it does not
  report the event signalled. A wait that reports the event signalled leaves the flag
  set (another thread has set it, if it was clear).
\<close>

definition wait_answer_fits :: "world \<Rightarrow> HANDLE \<Rightarrow> DWORD \<Rightarrow> os_wait \<Rightarrow> bool" where
  "wait_answer_fits s h delay w =
     (case events s h of
        None \<Rightarrow> True
      | Some flag \<Rightarrow>
          (if flag then w \<noteq> Expired
           else if delay = 0 then w \<noteq> Signalled
           else True))"

definition event_signalled :: "HANDLE \<Rightarrow> world \<Rightarrow> world" where
  "event_signalled h s =
     s\<lparr>events := (if h \<in> dom (events s) then (events s)(h \<mapsto> True) else events s)\<rparr>"

text \<open>
  \<open>vlc_WaitForMultipleObjects\<close> for \<open>count\<close> 0 (no handle) or 1 (the handle \<open>h\<close>). The
  result is \<open>None\<close> when the next answer of the script is not one to this call, or is one
  the event's flag excludes.
\<close>

fun vlc_WaitForMultipleObjects ::
  "DWORD \<Rightarrow> HANDLE \<Rightarrow> DWORD \<Rightarrow> os_event \<Rightarrow> world \<Rightarrow> DWORD outcome option" where
  "vlc_WaitForMultipleObjects count h delay (Sleep a) s =
     (if count = 0 then
        (let s1 = (case a of Elapsed \<Rightarrow> s | Interrupted c \<Rightarrow> run_apc c s);
             ret = SleepEx_ret a;
             ret = (if ret = 0 then WAIT_TIMEOUT else ret)
         in Some (check_wait count ret (s1\<lparr>oscalls := oscalls s1 @ [SleepEx delay]\<rparr>)))
      else None)"
| "vlc_WaitForMultipleObjects count h delay (Wait w) s =
     (if count = 0 \<or> \<not> wait_answer_fits s h delay w then None
      else
        (let s1 = (case w of
                     IoCompletion c \<Rightarrow> run_apc c s
                   | Signalled \<Rightarrow> event_signalled h s
                   | _ \<Rightarrow> s);
             ret = WaitForMultipleObjectsEx_ret w
         in Some (check_wait count ret
                    (s1\<lparr>oscalls := oscalls s1 @ [WaitForMultipleObjectsEx h delay]\<rparr>))))"
| "vlc_WaitForMultipleObjects count h delay (Clock t) s = None"

definition vlc_WaitForSingleObject ::
  "HANDLE \<Rightarrow> DWORD \<Rightarrow> os_event \<Rightarrow> world \<Rightarrow> DWORD outcome option" where
  "vlc_WaitForSingleObject h delay e s = vlc_WaitForMultipleObjects 1 h delay e s"

definition vlc_Sleep :: "DWORD \<Rightarrow> os_event \<Rightarrow> world \<Rightarrow> DWORD outcome option" where
  "vlc_Sleep delay e s =
     (case vlc_WaitForMultipleObjects 0 0 delay e s of
        Some (Returned ret s') \<Rightarrow> Some (Returned (if ret \<noteq> WAIT_TIMEOUT then ret else 0) s')
      | r \<Rightarrow> r)"

subsection \<open>Clock waits\<close>

text \<open>
  The body of the \<open>while\<close> loop of \<open>mwait\<close> turns the ticks left into the milliseconds
  it sleeps.
\<close>

definition sleep_delay :: "mtime_t \<Rightarrow> DWORD" where
  "sleep_delay delay0 =
     (let delay = delay0 sdiv 1000;
          delay = (if delay > 0x7fffffff then 0x7fffffff else delay)
      in word_of_int delay)"

text \<open>The \<open>while\<close> loop of \<open>mwait\<close>; each round reads \<open>mdate ()\<close>, then sleeps.\<close>

fun mwait_loop :: "user \<Rightarrow> mtime_t \<Rightarrow> os_event list \<Rightarrow> world \<Rightarrow> unit outcome option" where
  "mwait_loop u deadline (Clock now # rest) s =
     (let delay = deadline - now
      in if delay > 0 then
           (case rest of
              [] \<Rightarrow> None
            | e # rest' \<Rightarrow>
                (case vlc_Sleep (sleep_delay delay) e s of
                   None \<Rightarrow> None
                 | Some (Returned ret s1) \<Rightarrow>
                     (case vlc_testcancel u s1 of
                        Some (Returned x s2) \<Rightarrow> mwait_loop u deadline rest' s2
                      | r \<Rightarrow> r)
                 | Some (ThreadExit s1) \<Rightarrow> Some (ThreadExit s1)
                 | Some (Fatal f) \<Rightarrow> Some (Fatal f)))
         else Some (Returned () s))"
| "mwait_loop u deadline script s = None"

definition mwait :: "user \<Rightarrow> mtime_t \<Rightarrow> os_event list \<Rightarrow> world \<Rightarrow> unit outcome option" where
  "mwait u deadline script s =
     (case vlc_testcancel u s of
        Some (Returned x s1) \<Rightarrow> mwait_loop u deadline script s1
      | r \<Rightarrow> r)"

text \<open>\<open>msleep\<close>: the first answer of the script is the reading \<open>mdate ()\<close> of its argument.\<close>

definition msleep :: "user \<Rightarrow> mtime_t \<Rightarrow> os_event list \<Rightarrow> world \<Rightarrow> unit outcome option" where
  "msleep u delay script s =
     (case script of
        Clock now # rest \<Rightarrow> mwait u (now + delay) rest s
      | _ \<Rightarrow> None)"

subsection \<open>Condition variables: waiting\<close>

text \<open>
  The mutex argument is an identifier; unlocking and locking it are recorded among the
  platform calls. The \<open>do\<close>-\<open>while\<close> loop of \<open>vlc_cond_wait\<close>:
\<close>

fun cond_wait_loop ::
  "user \<Rightarrow> vlc_cond_t \<Rightarrow> nat \<Rightarrow> os_event list \<Rightarrow> world \<Rightarrow> DWORD outcome option" where
  "cond_wait_loop u p_condvar p_mutex script s =
     (case vlc_testcancel u s of
        None \<Rightarrow> None
      | Some (ThreadExit s1) \<Rightarrow> Some (ThreadExit s1)
      | Some (Fatal f) \<Rightarrow> Some (Fatal f)
      | Some (Returned x s1) \<Rightarrow>
          (case script of
             [] \<Rightarrow> None
           | e # rest \<Rightarrow>
               (case vlc_WaitForSingleObject (handle p_condvar) INFINITE e
                       (s1\<lparr>oscalls := oscalls s1 @ [mutex_unlock p_mutex]\<rparr>) of
                  Some (Returned result s2) \<Rightarrow>
                    (let s3 = s2\<lparr>oscalls := oscalls s2 @ [mutex_lock p_mutex]\<rparr>
                     in if result = WAIT_IO_COMPLETION
                        then cond_wait_loop u p_condvar p_mutex rest s3
                        else Some (Returned result s3))
                | r \<Rightarrow> r)))"

definition vlc_cond_wait ::
  "user \<Rightarrow> vlc_cond_t \<Rightarrow> nat \<Rightarrow> os_event list \<Rightarrow> world \<Rightarrow> unit outcome option" where
  "vlc_cond_wait u p_condvar p_mutex script s =
     (if handle p_condvar = 0 then msleep u 50000 script s
      else
        (case cond_wait_loop u p_condvar p_mutex script s of
           None \<Rightarrow> None
         | Some (ThreadExit s') \<Rightarrow> Some (ThreadExit s')
         | Some (Fatal f) \<Rightarrow> Some (Fatal f)
         | Some (Returned result s') \<Rightarrow>
             Some (Returned () (os_ResetEvent (handle p_condvar) s'))))"

text \<open>
  The clock read by \<open>vlc_cond_timedwait\<close>: \<open>now\<close> is what \<open>time (NULL)\<close> returns for
  \<open>CLOCK_REALTIME\<close> and what \<open>mdate ()\<close> returns otherwise.
\<close>

definition clock_total :: "nat \<Rightarrow> int \<Rightarrow> fatal + mtime_t" where
  "clock_total clk now =
     (if clk = CLOCK_REALTIME then Inr (int64 (CLOCK_FREQ * now))
      else if clk = CLOCK_MONOTONIC then Inr now
      else Inl AssertionFailed)"

text \<open>
  The delay in milliseconds handed to the wait, from the deadline and the clock: the
  64-bit difference, divided by 1000 towards zero, brought into \<open>[0, 0x7fffffff]\<close>.
\<close>

definition wait_delay :: "mtime_t \<Rightarrow> mtime_t \<Rightarrow> DWORD" where
  "wait_delay deadline total0 =
     (let t = int64 (deadline - total0) sdiv 1000;
          t = (if t < 0 then 0 else t)
      in if t > 0x7fffffff then 0x7fffffff else word_of_int t)"

fun timedwait_loop ::
  "user \<Rightarrow> vlc_cond_t \<Rightarrow> nat \<Rightarrow> mtime_t \<Rightarrow> os_event list \<Rightarrow> world \<Rightarrow> DWORD outcome option" where
  "timedwait_loop u p_condvar p_mutex deadline script s =
     (case vlc_testcancel u s of
        None \<Rightarrow> None
      | Some (ThreadExit s1) \<Rightarrow> Some (ThreadExit s1)
      | Some (Fatal f) \<Rightarrow> Some (Fatal f)
      | Some (Returned x s1) \<Rightarrow>
          (case script of
             Clock now # e # rest \<Rightarrow>
               (case clock_total (clock p_condvar) now of
                  Inl f \<Rightarrow> Some (Fatal f)
                | Inr total0 \<Rightarrow>
                    (case vlc_WaitForSingleObject (handle p_condvar) (wait_delay deadline total0) e
                            (s1\<lparr>oscalls := oscalls s1 @ [mutex_unlock p_mutex]\<rparr>) of
                       Some (Returned result s2) \<Rightarrow>
                         (let s3 = s2\<lparr>oscalls := oscalls s2 @ [mutex_lock p_mutex]\<rparr>
                          in if result = WAIT_IO_COMPLETION
                             then timedwait_loop u p_condvar p_mutex deadline rest s3
                             else Some (Returned result s3))
                     | r \<Rightarrow> r))
           | _ \<Rightarrow> None))"

definition vlc_cond_timedwait ::
  "user \<Rightarrow> vlc_cond_t \<Rightarrow> nat \<Rightarrow> mtime_t \<Rightarrow> os_event list \<Rightarrow> world \<Rightarrow> int outcome option" where
  "vlc_cond_timedwait u p_condvar p_mutex deadline script s =
     (if handle p_condvar = 0 then
        (case msleep u 50000 script s of
           None \<Rightarrow> None
         | Some (ThreadExit s') \<Rightarrow> Some (ThreadExit s')
         | Some (Fatal f) \<Rightarrow> Some (Fatal f)
         | Some (Returned x s') \<Rightarrow> Some (Returned 0 s'))
      else
        (case timedwait_loop u p_condvar p_mutex deadline script s of
           None \<Rightarrow> None
         | Some (ThreadExit s') \<Rightarrow> Some (ThreadExit s')
         | Some (Fatal f) \<Rightarrow> Some (Fatal f)
         | Some (Returned result s') \<Rightarrow>
             Some (Returned (if result = WAIT_OBJECT_0 then 0 else ETIMEDOUT)
                     (os_ResetEvent (handle p_condvar) s'))))"

subsection \<open>Timers\<close>

text \<open>\<open>struct vlc_timer\<close>: \<open>None\<close> stands for the handle \<open>INVALID_HANDLE_VALUE\<close>.\<close>

record vlc_timer =
  t_handle :: "HANDLE option"
  func :: fnptr
  t_data :: ptr

text \<open>
  \<open>vlc_timer_schedule\<close>: \<open>now\<close> is the reading \<open>mdate ()\<close> (taken for an absolute time only),
  \<open>created\<close> the handle \<open>CreateTimerQueueTimer\<close> stores, \<open>None\<close> when it fails. Its due time
  and period are \<open>DWORD\<close> parameters: the 64-bit values are converted on the call.
\<close>

definition vlc_timer_schedule ::
  "vlc_timer \<Rightarrow> bool \<Rightarrow> mtime_t \<Rightarrow> mtime_t \<Rightarrow> mtime_t \<Rightarrow> HANDLE option \<Rightarrow> world
     \<Rightarrow> vlc_timer outcome" where
  "vlc_timer_schedule timer absolute value0 interval0 now created s =
     (let s1 = (case t_handle timer of
                  None \<Rightarrow> s
                | Some h \<Rightarrow> s\<lparr>oscalls := oscalls s @ [DeleteTimerQueueTimer h]\<rparr>);
          timer1 = timer\<lparr>t_handle := None\<rparr>
      in if value0 = 0 then Returned timer1 s1
         else
           (let value1 = (if absolute then value0 - now else value0);
                value2 = (value1 + 999) sdiv 1000;
                interval = (interval0 + 999) sdiv 1000;
                s2 = s1\<lparr>oscalls := oscalls s1 @
                        [CreateTimerQueueTimer (word_of_int value2) (word_of_int interval)]\<rparr>
            in case created of
                 None \<Rightarrow> Fatal Aborted
               | Some h \<Rightarrow> Returned (timer1\<lparr>t_handle := Some h\<rparr>) s2))"

definition vlc_timer_getoverrun :: "vlc_timer \<Rightarrow> nat" where
  "vlc_timer_getoverrun timer = 0"

declare cond_wait_loop.simps [simp del]
declare timedwait_loop.simps [simp del]

subsection \<open>Notions used to state the properties\<close>

text \<open>The keys whose destructor thread exit has to call, in the order of the scan.\<close>

definition has_value :: "world \<Rightarrow> vlc_threadvar \<Rightarrow> bool" where
  "has_value s key = (vlc_threadvar_get key s \<noteq> 0 \<and> destroy key \<noteq> 0)"

definition keys_to_destroy :: "world \<Rightarrow> vlc_threadvar list" where
  "keys_to_destroy s = filter (has_value s) (vlc_threadvar_last s)"

text \<open>The world once each of these keys is cleared and its destructor called.\<close>

definition drained :: "world \<Rightarrow> world" where
  "drained s =
     s\<lparr>tls := (\<lambda>i. if i \<in> tv_id ` set (keys_to_destroy s) then 0 else tls s i),
       callbacks := callbacks s @
         map (\<lambda>key. Destructor key (vlc_threadvar_get key s) 0) (keys_to_destroy s)\<rparr>"

text \<open>Pushing cleanup handlers one after the other, with \<open>vlc_control_cancel\<close>.\<close>

fun push_cleaners :: "vlc_cleanup_t list \<Rightarrow> world \<Rightarrow> unit outcome" where
  "push_cleaners [] s = Returned () s"
| "push_cleaners (c # cs) s =
     (case vlc_control_cancel (VLC_CLEANUP_PUSH c) s of
        Returned x s' \<Rightarrow> push_cleaners cs s'
      | r \<Rightarrow> r)"

text \<open>
  No cancellation reaches the thread while it runs through a sequence of alertable
  waits, \<open>apcs\<close> telling for each whether \<open>vlc_cancel_self\<close> ran in it: the thread has no
  record, or is not killable, or is neither killed already nor cancelled by an APC.
\<close>

definition not_cancelled :: "world \<Rightarrow> bool list \<Rightarrow> bool" where
  "not_cancelled s apcs =
     (case self s of
        None \<Rightarrow> True
      | Some th \<Rightarrow> \<not> killable th \<or> (\<not> killed th \<and> True \<notin> set apcs))"

text \<open>
  Scripts. \<open>sleep_rounds\<close>: rounds of \<open>mwait\<close>, each a clock reading and the answer to
  the sleep after it. \<open>apc_rounds\<close>: rounds of a timed wait that an APC ended, each a
  clock reading and whether the APC was \<open>vlc_cancel_self\<close>.
\<close>

fun sleep_apc :: "os_sleep \<Rightarrow> bool" where
  "sleep_apc Elapsed = False"
| "sleep_apc (Interrupted c) = c"

fun sleep_rounds :: "(mtime_t \<times> os_sleep) list \<Rightarrow> os_event list" where
  "sleep_rounds [] = []"
| "sleep_rounds ((r, a) # rounds) = Clock r # Sleep a # sleep_rounds rounds"


text \<open>The world after the rounds of \<open>mwait\<close> towards \<open>deadline\<close>.\<close>

fun slept :: "mtime_t \<Rightarrow> (mtime_t \<times> os_sleep) list \<Rightarrow> world \<Rightarrow> world" where
  "slept deadline [] s = s"
| "slept deadline ((r, a) # rounds) s =
     slept deadline rounds
       ((run_apc (sleep_apc a) s)\<lparr>oscalls := oscalls s @ [SleepEx (sleep_delay (deadline - r))]\<rparr>)"




subsection \<open>A world to run examples in\<close>

definition fresh_world :: world where
  "fresh_world =
     \<lparr>self = None, tls = (\<lambda>i. 0), tls_live = (\<lambda>i. False), vlc_threadvar_last = [],
      events = Map.empty, callbacks = [], oscalls = []\<rparr>"

section \<open>Properties\<close>

subsection \<open>Arithmetic of the machine types\<close>

lemma unat_succ_below_max:
  fixes x :: "32 word"
  assumes "x \<noteq> ULONG_MAX"
  shows "unat (x + 1) = unat x + 1"
proof -
  have "unat x \<noteq> unat (0xFFFFFFFF :: 32 word)"
    using assms unfolding ULONG_MAX_def
    by (simp only: word_unat_eq_iff [symmetric] not_False_eq_True)
  moreover have "unat x < 2 ^ 32"
    using unsigned_less [of x, where 'a = nat] by simp
  ultimately have "unat x + unat (1 :: 32 word) < 2 ^ LENGTH(32)"
    by simp
  then show ?thesis
    by (simp only: unat_add_lem [THEN iffD1] unat_1)
qed

lemma less_ULONG_MAX_iff: "((x :: 32 word) < ULONG_MAX) = (x \<noteq> ULONG_MAX)"
proof -
  have "unat x < 2 ^ 32"
    using unsigned_less [of x, where 'a = nat] by simp
  then show ?thesis
    unfolding ULONG_MAX_def word_less_nat_alt word_unat_eq_iff by simp arith
qed

lemma sdiv_1000_nonneg: "0 \<le> (k :: int) \<Longrightarrow> k sdiv 1000 = k div 1000"
  by (cases "k = 0") (simp_all add: signed_divide_int_def)

lemma round_up_bounds:
  fixes v :: int
  shows "v \<le> 1000 * ((v + 999) div 1000)" and "- (- v div 1000) = (v + 999) div 1000"
proof -
  define q where "q = (v + 999) div 1000"
  define r where "r = (v + 999) mod 1000"
  have r: "0 \<le> r" "r < 1000"
    by (simp_all add: r_def)
  have v: "v + 999 = 1000 * q + r"
    by (simp add: q_def r_def)
  from v r show "v \<le> 1000 * ((v + 999) div 1000)"
    unfolding q_def [symmetric] by linarith
  have "- v = 1000 * (- q) + (999 - r)"
    using v by linarith
  moreover have "0 \<le> 999 - r" and "999 - r < 1000"
    using r by linarith+
  ultimately have "- v div 1000 = - q"
    by (rule int_div_pos_eq)
  then show "- (- v div 1000) = (v + 999) div 1000"
    by (simp add: q_def)
qed

lemma ceiling_1000: "\<lceil>real_of_int v / 1000\<rceil> = (v + 999) div 1000"
proof -
  have "\<lceil>real_of_int v / real_of_int 1000\<rceil> = - (- v div 1000)"
    by (rule ceiling_divide_eq_div)
  then show ?thesis
    by (simp add: round_up_bounds(2))
qed

lemma dword_of_delay:
  assumes "- 1000 < (v :: int)" and "v \<le> 4294967295000"
  shows "uint (word_of_int ((v + 999) sdiv 1000) :: DWORD) = \<lceil>real_of_int v / 1000\<rceil>"
proof -
  have e: "(v + 999) sdiv 1000 = (v + 999) div 1000"
    using assms(1) by (simp add: sdiv_1000_nonneg)
  have "0 \<le> (v + 999) div 1000" and "(v + 999) div 1000 < 2 ^ 32"
    using assms by simp_all
  then have "uint (word_of_int ((v + 999) div 1000) :: DWORD) = (v + 999) div 1000"
    by (simp add: uint_word_of_int_eq take_bit_int_eq_self)
  with e show ?thesis by (simp add: ceiling_1000)
qed

subsection \<open>Condition variables\<close>

text \<open>
  C3. \<open>vlc_cond_signal\<close> and \<open>vlc_cond_broadcast\<close> are the same function of the condition
  variable and the world: on a condition variable with an event both set the event's
  manual-reset flag (of an open event), and neither does anything else to the events.
\<close>

theorem cond_signal_is_broadcast:
  "vlc_cond_signal = vlc_cond_broadcast
   \<and> events (vlc_cond_signal cv s) =
       (if handle cv \<noteq> 0 \<and> handle cv \<in> dom (events s)
        then (events s)(handle cv \<mapsto> True) else events s)"
  by (auto simp add: fun_eq_iff vlc_cond_signal_def vlc_cond_broadcast_def os_SetEvent_def)

theorem cond_signal_is_broadcast_witness:
  "vlc_cond_signal \<lparr>handle = 4, clock = 1\<rparr> (fresh_world\<lparr>events := [4 \<mapsto> False]\<rparr>)
     = vlc_cond_broadcast \<lparr>handle = 4, clock = 1\<rparr> (fresh_world\<lparr>events := [4 \<mapsto> False]\<rparr>)
   \<and> events (vlc_cond_signal \<lparr>handle = 4, clock = 1\<rparr> (fresh_world\<lparr>events := [4 \<mapsto> False]\<rparr>)) 4
       = Some True"
  using cond_signal_is_broadcast
    [of "\<lparr>handle = 4, clock = 1\<rparr>" "fresh_world\<lparr>events := [4 \<mapsto> False]\<rparr>"]
  by (simp add: vlc_cond_signal_def vlc_cond_broadcast_def os_SetEvent_def)

subsection \<open>Cancellation state\<close>

text \<open>
  C6. \<open>vlc_savecancel\<close> followed by \<open>vlc_restorecancel\<close> of the value it returned gives
  back the world it started from: \<open>killable\<close> is what it was, for a thread with a record
  in any cancellation state and for a thread with none.
\<close>

theorem savecancel_restorecancel_noop:
  "vlc_restorecancel (fst (vlc_savecancel s)) (snd (vlc_savecancel s)) = Returned () s"
  by (cases "self s") (simp_all add: vlc_restorecancel_def vlc_savecancel_def)

theorem savecancel_restorecancel_noop_witness:
  "vlc_restorecancel
     (fst (vlc_savecancel (fresh_world\<lparr>self := Some \<lparr>th_id = 9, detached = False,
        killable = True, killed = False, cleaners = [], entry = 1, data = 0\<rparr>\<rparr>)))
     (snd (vlc_savecancel (fresh_world\<lparr>self := Some \<lparr>th_id = 9, detached = False,
        killable = True, killed = False, cleaners = [], entry = 1, data = 0\<rparr>\<rparr>)))
   = Returned () (fresh_world\<lparr>self := Some \<lparr>th_id = 9, detached = False,
        killable = True, killed = False, cleaners = [], entry = 1, data = 0\<rparr>\<rparr>)"
  using savecancel_restorecancel_noop
    [of "fresh_world\<lparr>self := Some \<lparr>th_id = 9, detached = False,
        killable = True, killed = False, cleaners = [], entry = 1, data = 0\<rparr>\<rparr>"]
  by simp

subsection \<open>Thread-local keys\<close>

text \<open>
  C8. \<open>vlc_threadvar_set\<close> returns \<open>ENOMEM\<close> (which is not zero) exactly when
  \<open>TlsSetValue\<close> reports success and 0 exactly when it reports failure, while
  \<open>vlc_threadvar_create\<close> returns 0 when it succeeds.
\<close>

theorem threadvar_set_result_inverted:
  "(fst (vlc_threadvar_set key v s) = ENOMEM) = fst (TlsSetValue (tv_id key) v s)
   \<and> (fst (vlc_threadvar_set key v s) = 0) = (\<not> fst (TlsSetValue (tv_id key) v s))
   \<and> ENOMEM \<noteq> 0
   \<and> fst (vlc_threadvar_create None idx destr s)
       = (if idx = TLS_OUT_OF_INDEXES then EAGAIN else 0)"
  by (simp add: vlc_threadvar_set_def TlsSetValue_def ENOMEM_def vlc_threadvar_create_def Let_def)

theorem threadvar_set_result_inverted_witness:
  "fst (TlsSetValue 2 7 (fresh_world\<lparr>tls_live := (\<lambda>i. i = 2)\<rparr>))
   \<and> fst (vlc_threadvar_set \<lparr>tv_id = 2, destroy = 5\<rparr> 7 (fresh_world\<lparr>tls_live := (\<lambda>i. i = 2)\<rparr>))
       = ENOMEM
   \<and> fst (vlc_threadvar_create None 2 5 (fresh_world\<lparr>tls_live := (\<lambda>i. i = 2)\<rparr>)) = 0"
  using threadvar_set_result_inverted
    [of "\<lparr>tv_id = 2, destroy = 5\<rparr>" 7 "fresh_world\<lparr>tls_live := (\<lambda>i. i = 2)\<rparr>" 2 5]
  by (simp add: TlsSetValue_def TLS_OUT_OF_INDEXES_def)

subsection \<open>Read/write locks\<close>

lemma rw_step_inv: "rw_inv lock \<Longrightarrow> rw_step opn lock s = RwDone lock' s' \<Longrightarrow> rw_inv lock'"
  by (cases opn)
     (auto simp add: rw_inv_def vlc_rwlock_rdlock_def vlc_rwlock_rdunlock_def
        vlc_rwlock_wrlock_def vlc_rwlock_wrunlock_def vlc_rwlock_unlock_def Let_def word_gt_0
        split: if_splits)

lemma rw_run_inv: "rw_inv lock \<Longrightarrow> rw_run ops lock s = Some (lock', s') \<Longrightarrow> rw_inv lock'"
proof (induction ops arbitrary: lock s)
  case Nil
  then show ?case by simp
next
  case (Cons opn ops)
  show ?case
  proof (cases "rw_step opn lock s")
    case (RwDone l1 s1)
    with Cons.prems rw_step_inv [OF Cons.prems(1) RwDone] Cons.IH [of l1 s1]
    show ?thesis by simp
  next
    case RwWaits
    with Cons show ?thesis by simp
  next
    case (RwFatal f)
    with Cons.prems show ?thesis by simp
  qed
qed

lemma vlc_rwlock_init_inv: "vlc_rwlock_init h s = RwDone lock s' \<Longrightarrow> rw_inv lock"
  by (auto simp add: vlc_rwlock_init_def vlc_cond_init_def vlc_cond_init_common_def rw_inv_def
      split: if_splits)

text \<open>
  C5. After \<open>vlc_rwlock_init\<close> and any sequence of read-lock, read-unlock, write-lock,
  write-unlock and unlock operations that the process survives, a set \<open>writer\<close> implies
  \<open>readers = 0\<close> and \<open>readers > 0\<close> implies no \<open>writer\<close>; and every single operation that
  completes on a lock with this invariant leaves a lock with it.
\<close>

theorem rwlock_invariant:
  "(vlc_rwlock_init h s = RwDone lock0 s0 \<and> rw_run ops lock0 s0 = Some (lock, s1)
      \<longrightarrow> rw_inv lock)
   \<and> (rw_inv lock2 \<and> rw_step opn lock2 s2 = RwDone lock3 s3 \<longrightarrow> rw_inv lock3)"
  using vlc_rwlock_init_inv rw_run_inv rw_step_inv by blast

theorem rwlock_invariant_witness:
  "vlc_rwlock_init 1 fresh_world
     = RwDone \<lparr>wait = \<lparr>handle = 1, clock = 1\<rparr>, readers = 0, writer = 0\<rparr>
         (fresh_world\<lparr>events := [1 \<mapsto> False]\<rparr>)
   \<and> rw_run [RdLock, RdLock, WrLock 7, Unlock 7, Unlock 7, WrLock 7, RdLock, Unlock 7, RdLock]
        \<lparr>wait = \<lparr>handle = 1, clock = 1\<rparr>, readers = 0, writer = 0\<rparr>
        (fresh_world\<lparr>events := [1 \<mapsto> False]\<rparr>)
      = Some (\<lparr>wait = \<lparr>handle = 1, clock = 1\<rparr>, readers = 1, writer = 0\<rparr>,
              fresh_world\<lparr>events := [1 \<mapsto> True], oscalls := [SetEvent 1, SetEvent 1]\<rparr>)
   \<and> rw_inv \<lparr>wait = \<lparr>handle = 1, clock = 1\<rparr>, readers = 1, writer = 0\<rparr>
   \<and> rw_step (WrLock 7) \<lparr>wait = \<lparr>handle = 1, clock = 1\<rparr>, readers = 0, writer = 0\<rparr> fresh_world
      = RwDone \<lparr>wait = \<lparr>handle = 1, clock = 1\<rparr>, readers = 0, writer = 7\<rparr> fresh_world
   \<and> rw_inv \<lparr>wait = \<lparr>handle = 1, clock = 1\<rparr>, readers = 0, writer = 7\<rparr>"
  using rwlock_invariant
    [of 1 fresh_world "\<lparr>wait = \<lparr>handle = 1, clock = 1\<rparr>, readers = 0, writer = 0\<rparr>"
      "fresh_world\<lparr>events := [1 \<mapsto> False]\<rparr>"
      "[RdLock, RdLock, WrLock 7, Unlock 7, Unlock 7, WrLock 7, RdLock, Unlock 7, RdLock]"
      "\<lparr>wait = \<lparr>handle = 1, clock = 1\<rparr>, readers = 1, writer = 0\<rparr>"
      "fresh_world\<lparr>events := [1 \<mapsto> True], oscalls := [SetEvent 1, SetEvent 1]\<rparr>"
      "\<lparr>wait = \<lparr>handle = 1, clock = 1\<rparr>, readers = 0, writer = 0\<rparr>" "WrLock 7" fresh_world
      "\<lparr>wait = \<lparr>handle = 1, clock = 1\<rparr>, readers = 0, writer = 7\<rparr>" fresh_world]
    vlc_rwlock_init_inv [of 1 fresh_world]
  by (simp add: vlc_rwlock_init_def vlc_cond_init_def vlc_cond_init_common_def
      vlc_rwlock_rdlock_def vlc_rwlock_rdunlock_def vlc_rwlock_wrlock_def
      vlc_rwlock_wrunlock_def vlc_rwlock_unlock_def vlc_cond_signal_def vlc_cond_broadcast_def
      os_SetEvent_def ULONG_MAX_def CLOCK_MONOTONIC_def fresh_world_def)

text \<open>
  C10. \<open>vlc_rwlock_rdlock\<close> never wraps \<open>readers\<close>: with no writer and \<open>readers\<close> at
  \<open>ULONG_MAX\<close> it aborts; with \<open>readers\<close> below \<open>ULONG_MAX\<close> it does not abort, and when it
  completes \<open>readers\<close> has grown by exactly one.
\<close>

theorem rwlock_rdlock_no_wrap:
  "(readers lock < ULONG_MAX \<longrightarrow> vlc_rwlock_rdlock lock s \<noteq> RwFatal Aborted)
   \<and> (writer lock = 0 \<and> readers lock = ULONG_MAX
        \<longrightarrow> vlc_rwlock_rdlock lock s = RwFatal Aborted)
   \<and> (writer lock = 0 \<and> readers lock < ULONG_MAX \<longrightarrow>
        vlc_rwlock_rdlock lock s = RwDone (lock\<lparr>readers := readers lock + 1\<rparr>) s
        \<and> unat (readers lock + 1) = unat (readers lock) + 1)
   \<and> (\<forall>lock' s'. vlc_rwlock_rdlock lock s = RwDone lock' s' \<longrightarrow>
        unat (readers lock') = unat (readers lock) + 1)"
  by (auto simp add: vlc_rwlock_rdlock_def less_ULONG_MAX_iff unat_succ_below_max
      split: if_splits)

theorem rwlock_rdlock_no_wrap_witness:
  "readers \<lparr>wait = \<lparr>handle = 1, clock = 1\<rparr>, readers = 5, writer = 0\<rparr> < ULONG_MAX
   \<and> vlc_rwlock_rdlock \<lparr>wait = \<lparr>handle = 1, clock = 1\<rparr>, readers = 5, writer = 0\<rparr> fresh_world
       = RwDone \<lparr>wait = \<lparr>handle = 1, clock = 1\<rparr>, readers = 6, writer = 0\<rparr> fresh_world
   \<and> vlc_rwlock_rdlock \<lparr>wait = \<lparr>handle = 1, clock = 1\<rparr>, readers = ULONG_MAX, writer = 0\<rparr>
        fresh_world
       = RwFatal Aborted"
  using rwlock_rdlock_no_wrap
      [of "\<lparr>wait = \<lparr>handle = 1, clock = 1\<rparr>, readers = 5, writer = 0\<rparr>" fresh_world]
    rwlock_rdlock_no_wrap
      [of "\<lparr>wait = \<lparr>handle = 1, clock = 1\<rparr>, readers = ULONG_MAX, writer = 0\<rparr>" fresh_world]
  by (simp add: ULONG_MAX_def)

subsection \<open>Timers\<close>

text \<open>
  C7 (amended). When \<open>vlc_timer_schedule\<close> arms the timer (the first-fire time is not 0)
  and the delay \<open>v\<close> to the first fire (the time given, less the clock for an absolute
  time) and the interval both lie between \<open>- 999\<close> and \<open>4294967295000\<close> ticks, the due time
  and the period handed to the timer queue are \<open>\<lceil>v / 1000\<rceil>\<close> and \<open>\<lceil>interval / 1000\<rceil>\<close>
  milliseconds: rounded up, never down. Outside this range the values do not fit the
  32-bit parameters.
\<close>

theorem timer_schedule_rounds_up:
  assumes "value0 \<noteq> 0"
    and "v = (if absolute then value0 - now else value0)"
    and "- 1000 < v" and "v \<le> 4294967295000"
    and "- 1000 < interval" and "interval \<le> 4294967295000"
  shows "\<exists>s' d p.
           vlc_timer_schedule timer absolute value0 interval now (Some h) s
             = Returned (timer\<lparr>t_handle := Some h\<rparr>) s'
         \<and> last (oscalls s') = CreateTimerQueueTimer d p
         \<and> uint d = \<lceil>real_of_int v / 1000\<rceil>
         \<and> uint p = \<lceil>real_of_int interval / 1000\<rceil>
         \<and> v \<le> 1000 * uint d \<and> interval \<le> 1000 * uint p"
proof -
  let ?d = "word_of_int ((v + 999) sdiv 1000) :: DWORD"
  let ?p = "word_of_int ((interval + 999) sdiv 1000) :: DWORD"
  let ?s1 = "case t_handle timer of
               None \<Rightarrow> s
             | Some h' \<Rightarrow> s\<lparr>oscalls := oscalls s @ [DeleteTimerQueueTimer h']\<rparr>"
  have d: "uint ?d = \<lceil>real_of_int v / 1000\<rceil>"
    using assms(3,4) by (rule dword_of_delay)
  have p: "uint ?p = \<lceil>real_of_int interval / 1000\<rceil>"
    using assms(5,6) by (rule dword_of_delay)
  have up: "v \<le> 1000 * uint ?d" "interval \<le> 1000 * uint ?p"
    unfolding d p ceiling_1000 by (rule round_up_bounds(1))+
  have run: "vlc_timer_schedule timer absolute value0 interval now (Some h) s
      = Returned (timer\<lparr>t_handle := Some h\<rparr>)
          (?s1\<lparr>oscalls := oscalls ?s1 @ [CreateTimerQueueTimer ?d ?p]\<rparr>)"
    using assms(1,2) by (simp add: vlc_timer_schedule_def Let_def)
  show ?thesis
    apply (rule exI, rule exI [of _ ?d], rule exI [of _ ?p])
    apply (intro conjI)
         apply (rule run)
        apply simp
       apply (rule d)
      apply (rule p)
     apply (rule up(1))
    apply (rule up(2))
    done
qed

theorem timer_schedule_rounds_up_witness:
  "\<exists>s' d p.
      vlc_timer_schedule \<lparr>t_handle = Some 3, func = 1, t_data = 2\<rparr> False 50001 1500 0 (Some 8)
          fresh_world
        = Returned \<lparr>t_handle = Some 8, func = 1, t_data = 2\<rparr> s'
      \<and> last (oscalls s') = CreateTimerQueueTimer d p
      \<and> uint d = 51 \<and> uint p = 2"
  using timer_schedule_rounds_up
    [of 50001 50001 False 0 1500 "\<lparr>t_handle = Some 3, func = 1, t_data = 2\<rparr>" 8 fresh_world]
  by (simp add: ceiling_1000) blast

text \<open>
  The claim as stated fails: a first fire \<open>4294967296000\<close> ticks ahead (\<open>2^32\<close>
  milliseconds) is handed to the timer queue as a due time of 0.
\<close>

theorem timer_schedule_rounds_up_counterexample:
  "vlc_timer_schedule \<lparr>t_handle = None, func = 1, t_data = 0\<rparr> False 4294967296000 0 0 (Some 1)
       fresh_world
     = Returned \<lparr>t_handle = Some 1, func = 1, t_data = 0\<rparr>
         (fresh_world\<lparr>oscalls := [CreateTimerQueueTimer 0 0]\<rparr>)
   \<and> uint (0 :: DWORD) \<noteq> \<lceil>real_of_int 4294967296000 / 1000\<rceil>"
  by (simp add: vlc_timer_schedule_def fresh_world_def ceiling_1000 sdiv_1000_nonneg)

subsection \<open>Thread exit\<close>

lemma scan_keys_filter:
  "scan_keys ks s =
     (case filter (has_value s) ks of
        [] \<Rightarrow> None
      | key # rest \<Rightarrow> Some (key, vlc_threadvar_get key s))"
  by (induction ks) (simp_all add: has_value_def Let_def)

lemma drained_idle: "keys_to_destroy s = [] \<Longrightarrow> drained s = s"
  by (simp add: drained_def)

lemma filter_head_distinct:
  assumes "distinct (map f ks)" and "filter P ks = k # rest"
  shows "filter (\<lambda>x. P x \<and> f x \<noteq> f k) ks = rest"
  using assms
proof (induction ks)
  case Nil
  then show ?case by simp
next
  case (Cons a ks)
  show ?case
  proof (cases "P a")
    case True
    with Cons.prems have a: "a = k" and r: "filter P ks = rest" by simp_all
    from Cons.prems(1) a have "f k \<notin> f ` set ks" by simp
    then have "\<forall>x\<in>set ks. f x \<noteq> f k" by (metis rev_image_eqI)
    then have "filter (\<lambda>x. P x \<and> f x \<noteq> f k) ks = filter P ks"
      by (intro filter_cong) auto
    with a r show ?thesis by simp
  next
    case False
    with Cons show ?thesis by simp
  qed
qed

lemma drain_step:
  assumes ks: "keys_to_destroy s = key # rest"
    and d: "distinct (map tv_id (vlc_threadvar_last s))"
    and l: "\<forall>k\<in>set (vlc_threadvar_last s). tls_live s (tv_id k)"
    and n: "\<forall>k\<in>set (vlc_threadvar_last s). \<forall>v t. u (destroy k) v t = t"
  defines "s1 \<equiv> s\<lparr>tls := (tls s)(tv_id key := 0),
                   callbacks := callbacks s @ [Destructor key (vlc_threadvar_get key s) 0]\<rparr>"
  shows "drain_threadvars u s = drain_threadvars u s1"
    and "keys_to_destroy s1 = rest"
proof -
  have mem: "key \<in> set (vlc_threadvar_last s)"
  proof -
    have "key \<in> set (keys_to_destroy s)" using ks by simp
    then show ?thesis unfolding keys_to_destroy_def by simp
  qed
  have scan: "scan_keys (vlc_threadvar_last s) s = Some (key, vlc_threadvar_get key s)"
    using ks by (simp add: scan_keys_filter keys_to_destroy_def)
  have set: "vlc_threadvar_set key 0 s = (ENOMEM, s\<lparr>tls := (tls s)(tv_id key := 0)\<rparr>)"
    using l mem by (simp add: vlc_threadvar_set_def TlsSetValue_def)
  have neutral: "u (destroy key) v t = t" for v t
    using n mem by blast
  have "call_user u (destroy key) (vlc_threadvar_get key s)
           ((snd (vlc_threadvar_set key 0 s))
              \<lparr>callbacks := callbacks s @
                 [Destructor key (vlc_threadvar_get key s)
                    (vlc_threadvar_get key (snd (vlc_threadvar_set key 0 s)))]\<rparr>) = s1"
    unfolding s1_def
    by (rule world.equality)
       (simp_all add: set call_user_def neutral vlc_threadvar_get_def TlsGetValue_def)
  then show "drain_threadvars u s = drain_threadvars u s1"
    by (subst drain_threadvars.simps) (simp add: scan)
  have "has_value s1 = (\<lambda>x. has_value s x \<and> tv_id x \<noteq> tv_id key)"
    by (auto simp add: fun_eq_iff has_value_def s1_def vlc_threadvar_get_def TlsGetValue_def)
  then have "keys_to_destroy s1 =
      filter (\<lambda>x. has_value s x \<and> tv_id x \<noteq> tv_id key) (vlc_threadvar_last s)"
    by (simp add: keys_to_destroy_def s1_def)
  also have "\<dots> = rest"
    using d ks unfolding keys_to_destroy_def by (rule filter_head_distinct)
  finally show "keys_to_destroy s1 = rest" .
qed

lemma drain_threadvars_result:
  assumes "distinct (map tv_id (vlc_threadvar_last s))"
    and "\<forall>k\<in>set (vlc_threadvar_last s). tls_live s (tv_id k)"
    and "\<forall>k\<in>set (vlc_threadvar_last s). \<forall>v t. u (destroy k) v t = t"
  shows "drain_threadvars u s = Some (drained s)"
  using assms
proof (induction "keys_to_destroy s" arbitrary: s)
  case Nil
  then have "scan_keys (vlc_threadvar_last s) s = None"
    by (simp add: scan_keys_filter keys_to_destroy_def)
  then have "drain_threadvars u s = Some s"
    by (subst drain_threadvars.simps) simp
  with Nil(1) show ?case by (simp add: drained_idle)
next
  case (Cons key rest)
  define s1 where "s1 = s\<lparr>tls := (tls s)(tv_id key := 0),
                   callbacks := callbacks s @ [Destructor key (vlc_threadvar_get key s) 0]\<rparr>"
  have ks: "keys_to_destroy s = key # rest" using Cons(2) by simp
  have step: "drain_threadvars u s = drain_threadvars u s1"
    and rest: "keys_to_destroy s1 = rest"
    using drain_step [OF ks Cons(3) Cons(4) Cons(5)] unfolding s1_def by simp_all
  have "drain_threadvars u s1 = Some (drained s1)"
    using Cons(1) [of s1] rest Cons(3,4,5) by (simp add: s1_def)
  moreover have "drained s1 = drained s"
  proof -
    have d: "distinct (map tv_id (key # rest))"
      using Cons(3) distinct_map_filter unfolding ks [symmetric] keys_to_destroy_def by blast
    then have "tv_id key \<notin> tv_id ` set rest" by simp
    then have other: "\<forall>k\<in>set rest. tv_id k \<noteq> tv_id key" by (metis rev_image_eqI)
    have "map (\<lambda>k. Destructor k (vlc_threadvar_get k s1) 0) rest
        = map (\<lambda>k. Destructor k (vlc_threadvar_get k s) 0) rest"
      using other by (simp add: s1_def vlc_threadvar_get_def TlsGetValue_def)
    moreover have "(\<lambda>i. if i \<in> tv_id ` set rest then 0 else tls s1 i)
        = (\<lambda>i. if i \<in> tv_id ` set (key # rest) then 0 else tls s i)"
      by (auto simp add: fun_eq_iff s1_def)
    ultimately show ?thesis
      unfolding drained_def rest ks by (intro world.equality) (simp_all add: s1_def)
  qed
  ultimately show ?case using step by simp
qed

lemma keys_to_destroy_drained: "keys_to_destroy (drained s) = []"
proof -
  have "\<not> has_value (drained s) key" if "key \<in> set (vlc_threadvar_last s)" for key
  proof (cases "tv_id key \<in> tv_id ` set (keys_to_destroy s)")
    case True
    then show ?thesis
      by (simp add: has_value_def drained_def vlc_threadvar_get_def TlsGetValue_def)
  next
    case False
    then have "key \<notin> set (keys_to_destroy s)" by blast
    with that have "\<not> has_value s key" by (simp add: keys_to_destroy_def)
    with False show ?thesis
      by (simp add: has_value_def drained_def vlc_threadvar_get_def TlsGetValue_def)
  qed
  then show ?thesis
    by (simp add: keys_to_destroy_def drained_def)
qed

lemma scan_keys_None: "keys_to_destroy s = [] \<Longrightarrow> scan_keys (vlc_threadvar_last s) s = None"
  by (simp add: scan_keys_filter keys_to_destroy_def)

lemma vlc_thread_cleanup_result:
  assumes "distinct (map tv_id (vlc_threadvar_last s))"
    and "\<forall>key\<in>set (vlc_threadvar_last s). tls_live s (tv_id key)"
    and "\<forall>key\<in>set (vlc_threadvar_last s). \<forall>v t. u (destroy key) v t = t"
  shows "vlc_thread_cleanup u th s =
           Some (if detached th
                 then (drained s)\<lparr>self := None,
                        oscalls := oscalls s @ [CloseHandle (th_id th), free_thread]\<rparr>
                 else drained s)"
  using drain_threadvars_result [OF assms]
  by (simp add: vlc_thread_cleanup_def drained_def)

text \<open>
  C4. Let the keys of the registry have distinct live slots, and let their destructors
  set no value of the thread. Then thread exit (\<open>vlc_thread_cleanup\<close>) ends, having called
  the destructor of exactly the keys that had a value (and have a destructor), once
  each, in the order of the registry, each with the value as argument and with the
  key's slot already cleared; and in the world it leaves, a scan of the registry finds
  no key with a value and a destructor.
\<close>

theorem thread_cleanup_runs_destructors:
  assumes "distinct (map tv_id (vlc_threadvar_last s))"
    and "\<forall>key\<in>set (vlc_threadvar_last s). tls_live s (tv_id key)"
    and "\<forall>key\<in>set (vlc_threadvar_last s). \<forall>v t. u (destroy key) v t = t"
  shows "\<exists>s'. vlc_thread_cleanup u th s = Some s'
     \<and> callbacks s' = callbacks s @
          map (\<lambda>key. Destructor key (vlc_threadvar_get key s) 0) (keys_to_destroy s)
     \<and> distinct (keys_to_destroy s)
     \<and> set (keys_to_destroy s) =
          {key \<in> set (vlc_threadvar_last s). vlc_threadvar_get key s \<noteq> 0 \<and> destroy key \<noteq> 0}
     \<and> scan_keys (vlc_threadvar_last s') s' = None"
proof -
  let ?s' = "if detached th
             then (drained s)\<lparr>self := None,
                    oscalls := oscalls s @ [CloseHandle (th_id th), free_thread]\<rparr>
             else drained s"
  have run: "vlc_thread_cleanup u th s = Some ?s'"
    using assms by (rule vlc_thread_cleanup_result)
  have cb: "callbacks ?s' = callbacks s @
          map (\<lambda>key. Destructor key (vlc_threadvar_get key s) 0) (keys_to_destroy s)"
    by (simp add: drained_def)
  have "distinct (vlc_threadvar_last s)"
    using assms(1) by (simp add: distinct_map)
  then have dist: "distinct (keys_to_destroy s)"
    by (simp add: keys_to_destroy_def)
  have set: "set (keys_to_destroy s) =
          {key \<in> set (vlc_threadvar_last s). vlc_threadvar_get key s \<noteq> 0 \<and> destroy key \<noteq> 0}"
    by (auto simp add: keys_to_destroy_def has_value_def)
  have "has_value ?s' = has_value (drained s)"
    by (simp add: fun_eq_iff has_value_def vlc_threadvar_get_def TlsGetValue_def)
  then have "keys_to_destroy ?s' = keys_to_destroy (drained s)"
    by (simp add: keys_to_destroy_def)
  then have "keys_to_destroy ?s' = []"
    by (simp only: keys_to_destroy_drained)
  then have scan: "scan_keys (vlc_threadvar_last ?s') ?s' = None"
    by (rule scan_keys_None)
  from run cb dist set scan show ?thesis by blast
qed

theorem thread_cleanup_runs_destructors_witness:
  "\<exists>s'. vlc_thread_cleanup (\<lambda>f a t. t)
       \<lparr>th_id = 9, detached = True, killable = True, killed = False,
          cleaners = [], entry = 1, data = 77\<rparr>
       (fresh_world\<lparr>tls := (\<lambda>i. if i = 1 then 11 else if i = 2 then 22 else 0),
          tls_live := (\<lambda>i. i < 4),
          vlc_threadvar_last := [\<lparr>tv_id = 3, destroy = 103\<rparr>, \<lparr>tv_id = 2, destroy = 102\<rparr>,
            \<lparr>tv_id = 1, destroy = 101\<rparr>, \<lparr>tv_id = 0, destroy = 0\<rparr>]\<rparr>) = Some s'
     \<and> callbacks s' = [Destructor \<lparr>tv_id = 2, destroy = 102\<rparr> 22 0,
                        Destructor \<lparr>tv_id = 1, destroy = 101\<rparr> 11 0]"
  using thread_cleanup_runs_destructors
    [of "fresh_world\<lparr>tls := (\<lambda>i. if i = 1 then 11 else if i = 2 then 22 else 0),
          tls_live := (\<lambda>i. i < 4),
          vlc_threadvar_last := [\<lparr>tv_id = 3, destroy = 103\<rparr>, \<lparr>tv_id = 2, destroy = 102\<rparr>,
            \<lparr>tv_id = 1, destroy = 101\<rparr>, \<lparr>tv_id = 0, destroy = 0\<rparr>]\<rparr>" "\<lambda>f a t. t"
       "\<lparr>th_id = 9, detached = True, killable = True, killed = False,
          cleaners = [], entry = 1, data = 77\<rparr>"]
  by (simp add: keys_to_destroy_def has_value_def vlc_threadvar_get_def TlsGetValue_def
      fresh_world_def) blast

subsection \<open>Cancellation points\<close>

lemma run_cleaners_frame:
  "callbacks (run_cleaners u cs s) = callbacks s @ map (\<lambda>p. Cleaner (proc p) (cl_data p)) cs"
  "self (run_cleaners u cs s) = self s"
  "tls_live (run_cleaners u cs s) = tls_live s"
  "vlc_threadvar_last (run_cleaners u cs s) = vlc_threadvar_last s"
  "events (run_cleaners u cs s) = events s"
  "oscalls (run_cleaners u cs s) = oscalls s"
  by (induction cs arbitrary: s) (simp_all add: call_user_def)

lemma vlc_testcancel_returns:
  "(case self s of None \<Rightarrow> True | Some th \<Rightarrow> \<not> (killable th \<and> killed th))
     \<Longrightarrow> vlc_testcancel u s = Some (Returned () s)"
  by (auto simp add: vlc_testcancel_def split: option.splits)

lemma push_cleaners_stack:
  "self s = Some th \<Longrightarrow>
     push_cleaners cs s = Returned () (s\<lparr>self := Some (th\<lparr>cleaners := rev cs @ cleaners th\<rparr>)\<rparr>)"
proof (induction cs arbitrary: s th)
  case Nil
  then show ?case by simp
next
  case (Cons c cs)
  have "vlc_control_cancel (VLC_CLEANUP_PUSH c) s
          = Returned () (s\<lparr>self := Some (th\<lparr>cleaners := c # cleaners th\<rparr>)\<rparr>)"
    using Cons.prems by (simp add: vlc_control_cancel_def)
  moreover have "push_cleaners cs (s\<lparr>self := Some (th\<lparr>cleaners := c # cleaners th\<rparr>)\<rparr>)
          = Returned () (s\<lparr>self := Some (th\<lparr>cleaners := rev cs @ c # cleaners th\<rparr>)\<rparr>)"
    using Cons.IH [of "s\<lparr>self := Some (th\<lparr>cleaners := c # cleaners th\<rparr>)\<rparr>"
        "th\<lparr>cleaners := c # cleaners th\<rparr>"]
    by simp
  ultimately show ?case by simp
qed

lemma drain_threadvars_frame:
  assumes "drain_threadvars u s = Some s'"
  shows "self s' = self s \<and> oscalls s' = oscalls s \<and> events s' = events s
       \<and> (\<exists>l. callbacks s' = callbacks s @ l \<and> (\<forall>c\<in>set l. \<exists>key v x. c = Destructor key v x))
       \<and> scan_keys (vlc_threadvar_last s') s' = None"
  using assms
proof (induction u s s' rule: drain_threadvars.raw_induct [rotated, consumes 1, case_names step])
  case (step drain u s s')
  note 1 = step
  show ?case
  proof (cases "scan_keys (vlc_threadvar_last s) s")
    case None
    with 1(2) have "s' = s" by simp
    with None show ?thesis by simp
  next
    case (Some kv)
    obtain key v where kv: "kv = (key, v)" by (cases kv)
    define s1 where "s1 = call_user u (destroy key) v
             ((snd (vlc_threadvar_set key 0 s))
              \<lparr>callbacks := callbacks s @
                 [Destructor key v (vlc_threadvar_get key (snd (vlc_threadvar_set key 0 s)))]\<rparr>)"
    have "drain u s1 = Some s'"
      using 1(2) Some by (simp add: kv s1_def)
    then have ih: "self s' = self s1 \<and> oscalls s' = oscalls s1 \<and> events s' = events s1
       \<and> (\<exists>l. callbacks s' = callbacks s1 @ l \<and> (\<forall>c\<in>set l. \<exists>key v x. c = Destructor key v x))
       \<and> scan_keys (vlc_threadvar_last s') s' = None"
      by (rule 1(1))
    have frame: "self s1 = self s" "oscalls s1 = oscalls s" "events s1 = events s"
      "callbacks s1 = callbacks s @
         [Destructor key v (vlc_threadvar_get key (snd (vlc_threadvar_set key 0 s)))]"
      by (simp_all add: s1_def call_user_def vlc_threadvar_set_def TlsSetValue_def)
    from ih obtain l where l: "callbacks s' = callbacks s1 @ l"
      "\<forall>c\<in>set l. \<exists>key v x. c = Destructor key v x"
      by blast
    let ?l = "Destructor key v (vlc_threadvar_get key (snd (vlc_threadvar_set key 0 s))) # l"
    have "callbacks s' = callbacks s @ ?l" and "\<forall>c\<in>set ?l. \<exists>key v x. c = Destructor key v x"
      using l frame(4) by simp_all
    then have "\<exists>l. callbacks s' = callbacks s @ l \<and> (\<forall>c\<in>set l. \<exists>key v x. c = Destructor key v x)"
      by blast
    with ih frame show ?thesis by simp
  qed
qed

lemma vlc_entry_null:
  assumes "killable th"
  shows "vlc_entry u (\<lambda>f arg t. (0, t)) th s
           = vlc_thread_cleanup u (th\<lparr>data := 0\<rparr>) (s\<lparr>self := Some (th\<lparr>data := 0\<rparr>)\<rparr>)"
proof -
  have "th\<lparr>killable := True\<rparr> = th"
    using assms by simp
  then show ?thesis
    by (simp add: vlc_entry_def Let_def)
qed

lemma vlc_testcancel_entry:
  assumes "self s = Some th" and "killable th" and "killed th"
  shows "vlc_testcancel u s =
        map_option (\<lambda>s'. ThreadExit (s'\<lparr>oscalls := oscalls s' @ [endthreadex]\<rparr>))
          (vlc_entry u (\<lambda>f arg t. (0, t)) th (run_cleaners u (cleaners th) s))"
  using assms
  by (simp add: vlc_entry_null vlc_testcancel_def Let_def split: option.splits)

lemma vlc_thread_cleanup_frame:
  assumes "vlc_thread_cleanup u th s = Some s'"
  shows "self s' = (if detached th then None else self s)"
    and "\<exists>l. callbacks s' = callbacks s @ l \<and> (\<forall>c\<in>set l. \<exists>key v x. c = Destructor key v x)"
    and "scan_keys (vlc_threadvar_last s') s' = None"
proof -
  from assms obtain s1 where d: "drain_threadvars u s = Some s1"
    and s': "s' = (if detached th
                then s1\<lparr>self := None, oscalls := oscalls s1 @ [CloseHandle (th_id th), free_thread]\<rparr>
                else s1)"
    by (auto simp add: vlc_thread_cleanup_def split: option.splits)
  note f = drain_threadvars_frame [OF d]
  show "self s' = (if detached th then None else self s)"
    using f by (simp add: s')
  show "\<exists>l. callbacks s' = callbacks s @ l \<and> (\<forall>c\<in>set l. \<exists>key v x. c = Destructor key v x)"
    using f by (simp add: s')
  have "scan_keys ks (s1\<lparr>self := a, oscalls := b\<rparr>) = scan_keys ks s1" for ks a b
    by (induction ks) (simp_all add: vlc_threadvar_get_def TlsGetValue_def Let_def)
  then show "scan_keys (vlc_threadvar_last s') s' = None"
    using f by (simp add: s')
qed

lemma drain_threadvars_forever:
  assumes "drain_threadvars u s = Some y"
    and "u = (\<lambda>f a t. if f = 101 then t(1 := a) else t)"
    and "vlc_threadvar_last s = [\<lparr>tv_id = 1, destroy = 101\<rparr>]"
    and "tls_live s 1" and "tls s 1 \<noteq> 0"
  shows False
  using assms
proof (induction u s y rule: drain_threadvars.raw_induct [rotated, consumes 1, case_names step])
  case (step drain u s y)
  note 1 = step
  let ?key = "\<lparr>tv_id = 1, destroy = 101\<rparr>"
  let ?s1 = "call_user u 101 (tls s 1)
             ((snd (vlc_threadvar_set ?key 0 s))
              \<lparr>callbacks := callbacks s @
                 [Destructor ?key (tls s 1) (vlc_threadvar_get ?key (snd (vlc_threadvar_set ?key 0 s)))]\<rparr>)"
  have "scan_keys (vlc_threadvar_last s) s = Some (?key, tls s 1)"
    using 1(4,6) by (simp add: vlc_threadvar_get_def TlsGetValue_def)
  with 1(2) have "drain u ?s1 = Some y" by simp
  moreover have "vlc_threadvar_last ?s1 = [?key]" "tls_live ?s1 1" "tls ?s1 1 \<noteq> 0"
    using 1(3,4,5,6) by (simp_all add: call_user_def vlc_threadvar_set_def TlsSetValue_def)
  ultimately show ?case
    using 1(1) [of u ?s1 y] 1(3) by blast
qed

text \<open>
  C2 (amended). For a thread whose record has \<open>killable\<close> and \<open>killed\<close> both set,
  \<open>vlc_testcancel\<close> calls every handler of \<open>cleaners\<close> from the head of the list on and
  then is what \<open>vlc_entry\<close> does after an entry function that returned \<open>NULL\<close> (\<open>data\<close>
  cleared, the teardown \<open>vlc_thread_cleanup\<close>), followed by the end of the thread; it never
  returns to its caller. Provided that teardown ends, the thread exits: the handlers
  were called first, in the order of the list, then destructors only, \<open>data\<close> is cleared,
  and a scan of the registry finds nothing left. The teardown does end where the keys of
  the registry have distinct live slots and destructors that set no value, and then
  calls the destructors of exactly the keys with a value. With one of the flags clear,
  or with no thread record, the call returns and the world is unchanged. Handlers pushed
  with \<open>vlc_control_cancel\<close> stand on the list in reverse order of pushing, so the most
  recently pushed one is called first.
\<close>

theorem testcancel_cancellation_point:
  "(self s = Some th \<and> killable th \<and> killed th \<longrightarrow>
      vlc_testcancel u s =
        map_option (\<lambda>s'. ThreadExit (s'\<lparr>oscalls := oscalls s' @ [endthreadex]\<rparr>))
          (vlc_entry u (\<lambda>f arg t. (0, t)) th (run_cleaners u (cleaners th) s))
      \<and> callbacks (run_cleaners u (cleaners th) s)
          = callbacks s @ map (\<lambda>p. Cleaner (proc p) (cl_data p)) (cleaners th)
      \<and> (\<forall>x s'. vlc_testcancel u s \<noteq> Some (Returned x s')))
   \<and> (self s = Some th \<and> killable th \<and> killed th
        \<and> vlc_entry u (\<lambda>f arg t. (0, t)) th (run_cleaners u (cleaners th) s) \<noteq> None \<longrightarrow>
      (\<exists>s' l. vlc_testcancel u s = Some (ThreadExit s')
          \<and> callbacks s' = callbacks s @ map (\<lambda>p. Cleaner (proc p) (cl_data p)) (cleaners th) @ l
          \<and> (\<forall>c\<in>set l. \<exists>key v x. c = Destructor key v x)
          \<and> self s' = (if detached th then None else Some (th\<lparr>data := 0\<rparr>))
          \<and> last (oscalls s') = endthreadex
          \<and> scan_keys (vlc_threadvar_last s') s' = None))
   \<and> (self s = Some th \<and> killable th \<and> killed th
        \<and> distinct (map tv_id (vlc_threadvar_last s))
        \<and> (\<forall>key\<in>set (vlc_threadvar_last s). tls_live s (tv_id key))
        \<and> (\<forall>key\<in>set (vlc_threadvar_last s). \<forall>v t. u (destroy key) v t = t) \<longrightarrow>
      (\<exists>s'. vlc_testcancel u s = Some (ThreadExit s')
          \<and> callbacks s' = callbacks s @ map (\<lambda>p. Cleaner (proc p) (cl_data p)) (cleaners th)
                @ map (\<lambda>key. Destructor key
                                (vlc_threadvar_get key (run_cleaners u (cleaners th) s)) 0)
                    (keys_to_destroy (run_cleaners u (cleaners th) s))
          \<and> self s' = (if detached th then None else Some (th\<lparr>data := 0\<rparr>))
          \<and> last (oscalls s') = endthreadex))
   \<and> (self s = Some th \<and> \<not> (killable th \<and> killed th) \<longrightarrow>
        vlc_testcancel u s = Some (Returned () s))
   \<and> (self s = None \<longrightarrow> vlc_testcancel u s = Some (Returned () s))
   \<and> (self s = Some th \<longrightarrow>
        push_cleaners cs s
          = Returned () (s\<lparr>self := Some (th\<lparr>cleaners := rev cs @ cleaners th\<rparr>)\<rparr>))"
proof (intro conjI impI)
  assume a: "self s = Some th \<and> killable th \<and> killed th"
  then show eq: "vlc_testcancel u s =
        map_option (\<lambda>s'. ThreadExit (s'\<lparr>oscalls := oscalls s' @ [endthreadex]\<rparr>))
          (vlc_entry u (\<lambda>f arg t. (0, t)) th (run_cleaners u (cleaners th) s))"
    by (intro vlc_testcancel_entry) simp_all
  show "\<forall>x s'. vlc_testcancel u s \<noteq> Some (Returned x s')"
    unfolding eq by (cases "vlc_entry u (\<lambda>f arg t. (0, t)) th (run_cleaners u (cleaners th) s)")
      simp_all
next
  show "callbacks (run_cleaners u (cleaners th) s)
          = callbacks s @ map (\<lambda>p. Cleaner (proc p) (cl_data p)) (cleaners th)"
    by (rule run_cleaners_frame)
next
  assume a: "self s = Some th \<and> killable th \<and> killed th
        \<and> vlc_entry u (\<lambda>f arg t. (0, t)) th (run_cleaners u (cleaners th) s) \<noteq> None"
  let ?s1 = "run_cleaners u (cleaners th) s"
  let ?s2 = "?s1\<lparr>self := Some (th\<lparr>data := 0\<rparr>)\<rparr>"
  from a obtain s3 where s3: "vlc_thread_cleanup u (th\<lparr>data := 0\<rparr>) ?s2 = Some s3"
    by (auto simp add: vlc_entry_null)
  have run: "vlc_testcancel u s = Some (ThreadExit (s3\<lparr>oscalls := oscalls s3 @ [endthreadex]\<rparr>))"
    using a s3 by (simp add: vlc_testcancel_entry vlc_entry_null)
  note f = vlc_thread_cleanup_frame [OF s3]
  from f(2) obtain l where l: "callbacks s3 = callbacks ?s2 @ l"
    "\<forall>c\<in>set l. \<exists>key v x. c = Destructor key v x"
    by blast
  have cb: "callbacks (s3\<lparr>oscalls := oscalls s3 @ [endthreadex]\<rparr>)
      = callbacks s @ map (\<lambda>p. Cleaner (proc p) (cl_data p)) (cleaners th) @ l"
    using l(1) by (simp add: run_cleaners_frame)
  have sf: "self (s3\<lparr>oscalls := oscalls s3 @ [endthreadex]\<rparr>)
      = (if detached th then None else Some (th\<lparr>data := 0\<rparr>))"
    using f(1) by simp
  have "scan_keys ks (s3\<lparr>oscalls := b\<rparr>) = scan_keys ks s3" for ks b
    by (induction ks) (simp_all add: vlc_threadvar_get_def TlsGetValue_def Let_def)
  then have sc: "scan_keys (vlc_threadvar_last (s3\<lparr>oscalls := oscalls s3 @ [endthreadex]\<rparr>))
      (s3\<lparr>oscalls := oscalls s3 @ [endthreadex]\<rparr>) = None"
    using f(3) by simp
  have "last (oscalls (s3\<lparr>oscalls := oscalls s3 @ [endthreadex]\<rparr>)) = endthreadex"
    by simp
  with run cb l(2) sf sc
  show "\<exists>s' l. vlc_testcancel u s = Some (ThreadExit s')
          \<and> callbacks s' = callbacks s @ map (\<lambda>p. Cleaner (proc p) (cl_data p)) (cleaners th) @ l
          \<and> (\<forall>c\<in>set l. \<exists>key v x. c = Destructor key v x)
          \<and> self s' = (if detached th then None else Some (th\<lparr>data := 0\<rparr>))
          \<and> last (oscalls s') = endthreadex
          \<and> scan_keys (vlc_threadvar_last s') s' = None"
    by blast
next
  assume a: "self s = Some th \<and> killable th \<and> killed th
        \<and> distinct (map tv_id (vlc_threadvar_last s))
        \<and> (\<forall>key\<in>set (vlc_threadvar_last s). tls_live s (tv_id key))
        \<and> (\<forall>key\<in>set (vlc_threadvar_last s). \<forall>v t. u (destroy key) v t = t)"
  let ?s1 = "run_cleaners u (cleaners th) s"
  let ?s2 = "?s1\<lparr>self := Some (th\<lparr>data := 0\<rparr>)\<rparr>"
  let ?s3 = "if detached th
             then (drained ?s2)\<lparr>self := None,
                    oscalls := oscalls ?s2 @ [CloseHandle (th_id th), free_thread]\<rparr>
             else drained ?s2"
  have clean: "vlc_thread_cleanup u (th\<lparr>data := 0\<rparr>) ?s2 = Some ?s3"
    using a vlc_thread_cleanup_result [of ?s2 u "th\<lparr>data := 0\<rparr>"]
    by (simp add: run_cleaners_frame)
  have run: "vlc_testcancel u s
      = Some (ThreadExit (?s3\<lparr>oscalls := oscalls ?s3 @ [endthreadex]\<rparr>))"
    using a clean by (simp add: vlc_testcancel_def Let_def)
  have hv: "has_value ?s2 = has_value ?s1"
    by (simp add: fun_eq_iff has_value_def vlc_threadvar_get_def TlsGetValue_def)
  have cb: "callbacks (?s3\<lparr>oscalls := oscalls ?s3 @ [endthreadex]\<rparr>)
      = callbacks s @ map (\<lambda>p. Cleaner (proc p) (cl_data p)) (cleaners th)
          @ map (\<lambda>key. Destructor key (vlc_threadvar_get key ?s1) 0) (keys_to_destroy ?s1)"
    by (simp add: drained_def keys_to_destroy_def hv run_cleaners_frame vlc_threadvar_get_def
        TlsGetValue_def)
  have sf: "self (?s3\<lparr>oscalls := oscalls ?s3 @ [endthreadex]\<rparr>)
      = (if detached th then None else Some (th\<lparr>data := 0\<rparr>))"
    by (simp add: drained_def)
  have "last (oscalls (?s3\<lparr>oscalls := oscalls ?s3 @ [endthreadex]\<rparr>)) = endthreadex"
    by simp
  with run cb sf
  show "\<exists>s'. vlc_testcancel u s = Some (ThreadExit s')
          \<and> callbacks s' = callbacks s @ map (\<lambda>p. Cleaner (proc p) (cl_data p)) (cleaners th)
                @ map (\<lambda>key. Destructor key
                                (vlc_threadvar_get key (run_cleaners u (cleaners th) s)) 0)
                    (keys_to_destroy (run_cleaners u (cleaners th) s))
          \<and> self s' = (if detached th then None else Some (th\<lparr>data := 0\<rparr>))
          \<and> last (oscalls s') = endthreadex"
    by blast
next
  assume "self s = Some th \<and> \<not> (killable th \<and> killed th)"
  then show "vlc_testcancel u s = Some (Returned () s)"
    by (intro vlc_testcancel_returns) simp
next
  assume "self s = None"
  then show "vlc_testcancel u s = Some (Returned () s)"
    by (intro vlc_testcancel_returns) simp
next
  assume "self s = Some th"
  then show "push_cleaners cs s
      = Returned () (s\<lparr>self := Some (th\<lparr>cleaners := rev cs @ cleaners th\<rparr>)\<rparr>)"
    by (rule push_cleaners_stack)
qed

text \<open>
  An instance: the handler 5 stores its argument in slot 3, so the destructor of the key
  of slot 3 is called as well, after both handlers.
\<close>

theorem testcancel_cancellation_point_witness:
  "\<exists>s'. vlc_testcancel (\<lambda>f a t. if f = 5 then t(3 := a) else t)
       (fresh_world\<lparr>self := Some \<lparr>th_id = 9, detached = False, killable = True, killed = True,
            cleaners = [\<lparr>proc = 5, cl_data = 50\<rparr>, \<lparr>proc = 6, cl_data = 60\<rparr>],
            entry = 1, data = 77\<rparr>,
          tls := (\<lambda>i. if i = 1 then 11 else if i = 2 then 22 else 0),
          tls_live := (\<lambda>i. i < 4),
          vlc_threadvar_last := [\<lparr>tv_id = 3, destroy = 103\<rparr>, \<lparr>tv_id = 2, destroy = 102\<rparr>,
            \<lparr>tv_id = 1, destroy = 101\<rparr>, \<lparr>tv_id = 0, destroy = 0\<rparr>]\<rparr>) = Some (ThreadExit s')
     \<and> callbacks s' = [Cleaner 5 50, Cleaner 6 60,
                        Destructor \<lparr>tv_id = 3, destroy = 103\<rparr> 50 0,
                        Destructor \<lparr>tv_id = 2, destroy = 102\<rparr> 22 0,
                        Destructor \<lparr>tv_id = 1, destroy = 101\<rparr> 11 0]
     \<and> self s' = Some \<lparr>th_id = 9, detached = False, killable = True, killed = True,
            cleaners = [\<lparr>proc = 5, cl_data = 50\<rparr>, \<lparr>proc = 6, cl_data = 60\<rparr>],
            entry = 1, data = 0\<rparr>
     \<and> last (oscalls s') = endthreadex"
  using testcancel_cancellation_point
    [where s = "fresh_world\<lparr>self := Some \<lparr>th_id = 9, detached = False, killable = True,
            killed = True,
            cleaners = [\<lparr>proc = 5, cl_data = 50\<rparr>, \<lparr>proc = 6, cl_data = 60\<rparr>],
            entry = 1, data = 77\<rparr>,
          tls := (\<lambda>i. if i = 1 then 11 else if i = 2 then 22 else 0),
          tls_live := (\<lambda>i. i < 4),
          vlc_threadvar_last := [\<lparr>tv_id = 3, destroy = 103\<rparr>, \<lparr>tv_id = 2, destroy = 102\<rparr>,
            \<lparr>tv_id = 1, destroy = 101\<rparr>, \<lparr>tv_id = 0, destroy = 0\<rparr>]\<rparr>"
      and th = "\<lparr>th_id = 9, detached = False, killable = True, killed = True,
            cleaners = [\<lparr>proc = 5, cl_data = 50\<rparr>, \<lparr>proc = 6, cl_data = 60\<rparr>],
            entry = 1, data = 77\<rparr>"
      and u = "\<lambda>f a t. if f = 5 then t(3 := a) else t" and cs = "[]",
      THEN conjunct2, THEN conjunct2, THEN conjunct1]
  by (simp add: keys_to_destroy_def has_value_def vlc_threadvar_get_def TlsGetValue_def
      fresh_world_def call_user_def)

text \<open>
  The claim as stated fails: where the destructor of a key stores a value under the key
  again, the teardown never ends, so the thread neither returns from \<open>vlc_testcancel\<close> nor
  exits.
\<close>

theorem testcancel_cancellation_point_counterexample:
  "vlc_testcancel (\<lambda>f a t. if f = 101 then t(1 := a) else t)
     (fresh_world\<lparr>self := Some \<lparr>th_id = 9, detached = False, killable = True, killed = True,
          cleaners = [], entry = 1, data = 77\<rparr>,
        tls := (\<lambda>i. if i = 1 then 11 else 0),
        tls_live := (\<lambda>i. i = 1),
        vlc_threadvar_last := [\<lparr>tv_id = 1, destroy = 101\<rparr>]\<rparr>) = None"
proof -
  let ?u = "\<lambda>(f :: nat) (a :: nat) (t :: nat \<Rightarrow> nat). if f = 101 then t(1 := a) else t"
  let ?th = "\<lparr>th_id = 9, detached = False, killable = True, killed = True,
          cleaners = [], entry = 1, data = 0\<rparr>"
  let ?s = "fresh_world\<lparr>self := Some ?th,
        tls := (\<lambda>i. if i = 1 then 11 else 0),
        tls_live := (\<lambda>i. i = 1),
        vlc_threadvar_last := [\<lparr>tv_id = 1, destroy = 101\<rparr>]\<rparr>"
  have "drain_threadvars ?u ?s = None"
  proof (cases "drain_threadvars ?u ?s")
    case None
    then show ?thesis .
  next
    case (Some y)
    then have False
      by (rule drain_threadvars_forever) (simp_all add: fresh_world_def)
    then show ?thesis ..
  qed
  then show ?thesis
    by (simp add: vlc_testcancel_def vlc_thread_cleanup_def fresh_world_def)
qed

subsection \<open>Waiting\<close>

lemma not_cancelled_testcancel:
  "not_cancelled s apcs \<Longrightarrow> vlc_testcancel u s = Some (Returned () s)"
  by (auto simp add: not_cancelled_def vlc_testcancel_def split: option.splits)

lemma not_cancelled_step:
  "not_cancelled s (c # apcs) \<Longrightarrow> not_cancelled ((run_apc c s)\<lparr>oscalls := calls\<rparr>) apcs"
  by (auto simp add: not_cancelled_def run_apc_def vlc_cancel_self_def split: option.splits)

lemma vlc_Sleep_answer:
  "vlc_Sleep d (Sleep a) s =
     Some (Returned (case a of Elapsed \<Rightarrow> 0 | Interrupted c \<Rightarrow> WAIT_IO_COMPLETION)
             ((run_apc (sleep_apc a) s)\<lparr>oscalls := oscalls s @ [SleepEx d]\<rparr>))"
  by (cases a)
     (simp_all add: vlc_Sleep_def check_wait_def run_apc_def vlc_cancel_self_def
        WAIT_TIMEOUT_def WAIT_IO_COMPLETION_def WAIT_ABANDONED_0_def WAIT_FAILED_def)

lemma mwait_loop_rounds:
  assumes "not_cancelled s (map (\<lambda>ra. sleep_apc (snd ra)) rounds)"
    and "\<forall>ra\<in>set rounds. fst ra < deadline"
    and "deadline \<le> fin"
  shows "mwait_loop u deadline (sleep_rounds rounds @ Clock fin # rest) s
           = Some (Returned () (slept deadline rounds s))"
  using assms
proof (induction rounds arbitrary: s)
  case Nil
  then show ?case by simp
next
  case (Cons ra rounds)
  obtain r a where ra: "ra = (r, a)" by (cases ra)
  let ?s1 = "(run_apc (sleep_apc a) s)\<lparr>oscalls := oscalls s @ [SleepEx (sleep_delay (deadline - r))]\<rparr>"
  have nc: "not_cancelled ?s1 (map (\<lambda>ra. sleep_apc (snd ra)) rounds)"
    using Cons.prems(1) by (simp add: ra not_cancelled_step)
  then have tc: "vlc_testcancel u ?s1 = Some (Returned () ?s1)"
    by (rule not_cancelled_testcancel)
  have "mwait_loop u deadline (sleep_rounds rounds @ Clock fin # rest) ?s1
          = Some (Returned () (slept deadline rounds ?s1))"
    using nc Cons.prems(2,3) by (intro Cons.IH) simp_all
  moreover have "r < deadline"
    using Cons.prems(2) by (simp add: ra)
  ultimately show ?case
    by (simp add: ra vlc_Sleep_answer tc)
qed

lemma slept_frame:
  "oscalls (slept deadline rounds s)
     = oscalls s @ map (\<lambda>ra. SleepEx (sleep_delay (deadline - fst ra))) rounds"
  "events (slept deadline rounds s) = events s"
  "callbacks (slept deadline rounds s) = callbacks s"
  "tls (slept deadline rounds s) = tls s"
  by (induction rounds arbitrary: s)
     (auto simp add: run_apc_def vlc_cancel_self_def)

lemma msleep_rounds:
  assumes "not_cancelled s (map (\<lambda>ra. sleep_apc (snd ra)) rounds)"
    and "\<forall>ra\<in>set rounds. fst ra < now + delay"
    and "now + delay \<le> fin"
  shows "msleep u delay (Clock now # sleep_rounds rounds @ Clock fin # rest) s
           = Some (Returned () (slept (now + delay) rounds s))"
  using mwait_loop_rounds [OF assms] not_cancelled_testcancel [OF assms(1)]
  by (simp add: msleep_def mwait_def)

text \<open>
  C9 (amended). On a condition variable without an event (\<open>handle\<close> is \<open>NULL\<close>), if no
  cancellation reaches the thread during the call, \<open>vlc_cond_wait\<close> reads the clock,
  sleeps until the clock has advanced by 50000 ticks (each sleep asking for the
  milliseconds left) and returns; \<open>vlc_cond_timedwait\<close> does the same and returns 0
  whatever its deadline; the events are untouched; and \<open>vlc_cond_signal\<close> and
  \<open>vlc_cond_broadcast\<close> change nothing.
\<close>

theorem cond_wait_without_event:
  assumes "handle cv = 0"
    and "not_cancelled s (map (\<lambda>ra. sleep_apc (snd ra)) rounds)"
    and "\<forall>ra\<in>set rounds. fst ra < now + 50000"
    and "now + 50000 \<le> fin"
    and "script = Clock now # sleep_rounds rounds @ Clock fin # rest"
  shows "vlc_cond_wait u cv m script s = Some (Returned () (slept (now + 50000) rounds s))
       \<and> vlc_cond_timedwait u cv m deadline script s
           = Some (Returned 0 (slept (now + 50000) rounds s))
       \<and> oscalls (slept (now + 50000) rounds s)
           = oscalls s @ map (\<lambda>ra. SleepEx (sleep_delay (now + 50000 - fst ra))) rounds
       \<and> events (slept (now + 50000) rounds s) = events s
       \<and> vlc_cond_signal cv s = s \<and> vlc_cond_broadcast cv s = s"
  using assms(1) msleep_rounds [OF assms(2,3,4), of u rest]
  by (simp add: vlc_cond_wait_def vlc_cond_timedwait_def assms(5) slept_frame
      vlc_cond_signal_def vlc_cond_broadcast_def)

theorem cond_wait_without_event_witness:
  "vlc_cond_wait (\<lambda>f a t. t) \<lparr>handle = 0, clock = CLOCK_REALTIME\<rparr> 0
      [Clock 100, Clock 100, Sleep Elapsed, Clock 40000, Sleep (Interrupted False), Clock 49000,
       Sleep Elapsed, Clock 50100] fresh_world
    = Some (Returned () (fresh_world\<lparr>oscalls := [SleepEx 50, SleepEx 10, SleepEx 1]\<rparr>))
   \<and> vlc_cond_timedwait (\<lambda>f a t. t) \<lparr>handle = 0, clock = CLOCK_REALTIME\<rparr> 0 7
      [Clock 100, Clock 100, Sleep Elapsed, Clock 40000, Sleep (Interrupted False), Clock 49000,
       Sleep Elapsed, Clock 50100] fresh_world
    = Some (Returned 0 (fresh_world\<lparr>oscalls := [SleepEx 50, SleepEx 10, SleepEx 1]\<rparr>))"
  using cond_wait_without_event [where cv = "\<lparr>handle = 0, clock = CLOCK_REALTIME\<rparr>" and s = fresh_world
      and rounds = "[(100, Elapsed), (40000, Interrupted False), (49000, Elapsed)]"
      and now = 100 and fin = 50100 and rest = "[]" and m = 0 and deadline = 7
      and u = "\<lambda>f a t. t"
      and script = "[Clock 100, Clock 100, Sleep Elapsed, Clock 40000, Sleep (Interrupted False),
         Clock 49000, Sleep Elapsed, Clock 50100]"]
  by (simp add: not_cancelled_def fresh_world_def run_apc_def sleep_delay_def)

text \<open>
  The claim as stated fails: the sleep is a cancellation point, so a thread with a
  cancellation pending and enabled ends in \<open>vlc_cond_wait\<close> and the call does not return.
\<close>

theorem cond_wait_without_event_counterexample:
  "vlc_cond_wait (\<lambda>f a t. t) \<lparr>handle = 0, clock = CLOCK_REALTIME\<rparr> 0
      [Clock 100, Clock 50100]
      (fresh_world\<lparr>self := Some \<lparr>th_id = 9, detached = False, killable = True, killed = True,
         cleaners = [], entry = 1, data = 77\<rparr>\<rparr>)
    = Some (ThreadExit
        (fresh_world\<lparr>self := Some \<lparr>th_id = 9, detached = False, killable = True, killed = True,
            cleaners = [], entry = 1, data = 0\<rparr>,
          oscalls := [endthreadex]\<rparr>))"
  by (simp add: vlc_cond_wait_def msleep_def mwait_def vlc_testcancel_def fresh_world_def
      vlc_thread_cleanup_def drain_threadvars.simps)




















end
